theory Spec2Isabelle
  imports Main "HOL-Library.Sublist" "HOL-Library.Multiset"
begin

section \<open>Text: the string operations of the log parser\<close>

text \<open>
  A Python \<open>str\<close> is a sequence of code points. The model covers the code points
  U+0000 to U+00FF, one \<open>char\<close> each; the character classes below are those of
  Python 3 (\<open>str.lower\<close>, \<open>str.strip\<close>, and \<open>\d\<close>, \<open>\s\<close>, \<open>\w\<close> of module \<open>re\<close> on
  \<open>str\<close> patterns) restricted to that range.
\<close>

definition code_point :: "char \<Rightarrow> nat" where
  "code_point c = of_char c"

definition is_digit :: "char \<Rightarrow> bool" where
  "is_digit c = (48 \<le> code_point c \<and> code_point c \<le> 57)"

definition is_space :: "char \<Rightarrow> bool" where
  "is_space c = (let n = code_point c in
     (9 \<le> n \<and> n \<le> 13) \<or> (28 \<le> n \<and> n \<le> 32) \<or> n = 133 \<or> n = 160)"

definition is_word :: "char \<Rightarrow> bool" where
  "is_word c = (let n = code_point c in
     (48 \<le> n \<and> n \<le> 57) \<or> (65 \<le> n \<and> n \<le> 90) \<or> n = 95 \<or> (97 \<le> n \<and> n \<le> 122)
     \<or> n = 170 \<or> n = 178 \<or> n = 179 \<or> n = 181 \<or> n = 185 \<or> n = 186
     \<or> (188 \<le> n \<and> n \<le> 190) \<or> (192 \<le> n \<and> n \<le> 214)
     \<or> (216 \<le> n \<and> n \<le> 246) \<or> (248 \<le> n \<and> n \<le> 255))"

definition lower_char :: "char \<Rightarrow> char" where
  "lower_char c = (let n = code_point c in
     if (65 \<le> n \<and> n \<le> 90) \<or> (192 \<le> n \<and> n \<le> 214) \<or> (216 \<le> n \<and> n \<le> 222)
     then char_of (n + 32) else c)"

text \<open>\<open>s.lower()\<close>\<close>

definition lower :: "string \<Rightarrow> string" where
  "lower s = map lower_char s"

text \<open>\<open>s.strip()\<close>: leading and trailing white space removed.\<close>

definition strip :: "string \<Rightarrow> string" where
  "strip s = rev (dropWhile is_space (rev (dropWhile is_space s)))"

text \<open>\<open>sub in s\<close> on strings: \<open>sub\<close> occurs as a contiguous piece of \<open>s\<close>.\<close>

definition str_in :: "string \<Rightarrow> string \<Rightarrow> bool" where
  "str_in sub s = sublist sub s"

text \<open>
  \<open>s.split(sep, 1)\<close>: cut at the first occurrence of \<open>sep\<close>; one part when there is
  none. \<open>s.rsplit(sep, 1)\<close>: cut at the last occurrence.
\<close>

fun split1 :: "string \<Rightarrow> string \<Rightarrow> string list" where
  "split1 sep [] = [[]]"
| "split1 sep (c # cs) =
     (if prefix sep (c # cs) then [[], drop (length sep) (c # cs)]
      else (case split1 sep cs of
              [rest] \<Rightarrow> [c # rest]
            | before # after \<Rightarrow> (c # before) # after))"

fun rsplit1 :: "string \<Rightarrow> string \<Rightarrow> string list" where
  "rsplit1 sep [] = [[]]"
| "rsplit1 sep (c # cs) =
     (case rsplit1 sep cs of
        [rest] \<Rightarrow> (if prefix sep (c # cs) then [[], drop (length sep) (c # cs)]
                   else [c # rest])
      | before # after \<Rightarrow> (c # before) # after)"

text \<open>\<open>str(n)\<close> for an integer, as the f-strings of the analyzer render the counts.\<close>

fun nat_digits :: "nat \<Rightarrow> string" where
  "nat_digits n =
     (if n < 10 then [char_of (48 + n)]
      else nat_digits (n div 10) @ [char_of (48 + n mod 10)])"

declare nat_digits.simps [simp del]

definition str_of_int :: "int \<Rightarrow> string" where
  "str_of_int i = (if i < 0 then CHR ''-'' # nat_digits (nat (- i)) else nat_digits (nat i))"

text \<open>
  Truth value of an \<open>Optional[str]\<close> in a condition: \<open>None\<close> and the empty string
  are false.
\<close>

fun truthy :: "string option \<Rightarrow> bool" where
  "truthy None = False"
| "truthy (Some s) = (s \<noteq> [])"

section \<open>Regular expressions: \<open>re.search\<close>\<close>

text \<open>
  The two patterns of \<open>extract_device_info\<close> are built from character classes,
  sequencing, greedy \<open>?\<close> and \<open>*\<close>, and capturing groups. \<open>rmatch r s\<close> lists, in the
  order in which a backtracking matcher tries them, every way \<open>r\<close> matches at the
  start of \<open>s\<close>: the captured groups and the text left over. The first element is
  the match Python reports. A \<open>*\<close> only repeats a body that consumed something.
\<close>

datatype rx =
    RChar "char \<Rightarrow> bool"
  | RSeq rx rx
  | ROpt rx
  | RStar rx
  | RGroup rx

function rmatch :: "rx \<Rightarrow> string \<Rightarrow> (string list \<times> string) list" where
  "rmatch (RChar P) s = (case s of [] \<Rightarrow> [] | c # cs \<Rightarrow> if P c then [([], cs)] else [])"
| "rmatch (RSeq a b) s =
     concat (map (\<lambda>(g1, r1). map (\<lambda>(g2, r2). (g1 @ g2, r2)) (rmatch b r1)) (rmatch a s))"
| "rmatch (ROpt a) s = rmatch a s @ [([], s)]"
| "rmatch (RStar a) s =
     concat (map (\<lambda>(g1, r1). map (\<lambda>(g2, r2). (g1 @ g2, r2)) (rmatch (RStar a) r1))
                 (filter (\<lambda>(g1, r1). length r1 < length s) (rmatch a s)))
     @ [([], s)]"
| "rmatch (RGroup a) s =
     map (\<lambda>(g, r). (take (length s - length r) s # g, r)) (rmatch a s)"
  by pat_completeness auto
termination
  by (relation "measure size <*lex*> measure length") auto

text \<open>\<open>re.search\<close>: the leftmost start position with a match; the result is the groups.\<close>

fun re_search :: "rx \<Rightarrow> string \<Rightarrow> string list option" where
  "re_search r [] = (case rmatch r [] of [] \<Rightarrow> None | (g, rest) # alts \<Rightarrow> Some g)"
| "re_search r (c # cs) =
     (case rmatch r (c # cs) of [] \<Rightarrow> re_search r cs | (g, rest) # alts \<Rightarrow> Some g)"

definition RPlus :: "rx \<Rightarrow> rx" where
  "RPlus a = RSeq a (RStar a)"

definition RRep4 :: "rx \<Rightarrow> rx" where
  "RRep4 a = RSeq a (RSeq a (RSeq a a))"

definition RLit :: "char \<Rightarrow> rx" where
  "RLit x = RChar (\<lambda>c. c = x)"

text \<open>A literal under \<open>re.IGNORECASE\<close>.\<close>

definition RLitI :: "char \<Rightarrow> rx" where
  "RLitI x = RChar (\<lambda>c. lower_char c = lower_char x)"

text \<open>\<^verbatim>\<open>(?:usb\s+)?(\d+-\d+(?:\.\d+)*)[\s:]\<close> with \<open>re.IGNORECASE\<close>\<close>

definition bus_pattern :: rx where
  "bus_pattern =
     RSeq (ROpt (RSeq (RLitI CHR ''u'') (RSeq (RLitI CHR ''s'') (RSeq (RLitI CHR ''b'')
                 (RPlus (RChar is_space))))))
    (RSeq (RGroup (RSeq (RPlus (RChar is_digit)) (RSeq (RLit CHR ''-'')
                  (RSeq (RPlus (RChar is_digit))
                        (RStar (RSeq (RLit CHR ''.'') (RPlus (RChar is_digit))))))))
          (RChar (\<lambda>c. is_space c \<or> c = CHR '':'')))"

text \<open>\<^verbatim>\<open>(\w{4}):(\w{4})\<close>\<close>

definition vp_pattern :: rx where
  "vp_pattern =
     RSeq (RGroup (RRep4 (RChar is_word)))
          (RSeq (RLit CHR '':'') (RGroup (RRep4 (RChar is_word))))"

section \<open>log\_parser.py\<close>

text \<open>
  \<open>LogEntry\<close> defines neither \<open>__eq__\<close> nor \<open>__hash__\<close>, so Python compares and hashes
  its objects by identity. \<open>entry_oid\<close> is that identity. The timestamp is a number of
  seconds; \<open>parse_timestamp\<close> never produces one.
\<close>

record LogEntry =
  entry_oid :: nat
  message :: string
  timestamp :: "int option"
  raw_line :: string
  entry_device_id :: "string option"
  vendor_product :: "string option"
  category :: string

text \<open>\<open>LogEntry._categorize\<close>\<close>

definition categorize :: "LogEntry \<Rightarrow> LogEntry" where
  "categorize self =
     (let msg_lower = lower (message self) in
      if list_ex (\<lambda>word. str_in word msg_lower) [''over-current'', ''overcurrent'']
        then self\<lparr>category := ''over_current''\<rparr>
      else if str_in ''reset'' msg_lower \<and> str_in ''usb'' msg_lower
        then self\<lparr>category := ''reset''\<rparr>
      else if str_in ''disconnect'' msg_lower \<and> str_in ''usb'' msg_lower
        then self\<lparr>category := ''disconnect''\<rparr>
      else if str_in ''error'' msg_lower \<or> str_in ''failed'' msg_lower
        then self\<lparr>category := ''error''\<rparr>
      else if str_in ''timeout'' msg_lower
        then self\<lparr>category := ''timeout''\<rparr>
      else if str_in ''descriptor read'' msg_lower
        then self\<lparr>category := ''descriptor_error''\<rparr>
      else if str_in ''cannot enumerate'' msg_lower \<or> str_in ''enumeration failed'' msg_lower
        then self\<lparr>category := ''enumeration_error''\<rparr>
      else if str_in ''warning'' msg_lower \<or> str_in ''warn'' msg_lower
        then self\<lparr>category := ''warning''\<rparr>
      else self)"

text \<open>\<open>LogEntry.__init__\<close>; the first argument is the identity of the new object.\<close>

definition new_LogEntry :: "nat \<Rightarrow> string \<Rightarrow> int option \<Rightarrow> string \<Rightarrow> LogEntry" where
  "new_LogEntry oid msg ts raw =
     categorize \<lparr>entry_oid = oid, message = msg, timestamp = ts, raw_line = raw,
                 entry_device_id = None, vendor_product = None, category = ''info''\<rparr>"

text \<open>\<open>LogEntry.extract_device_info\<close>\<close>

definition extract_device_info :: "LogEntry \<Rightarrow> LogEntry" where
  "extract_device_info self =
     (let self1 = (case re_search bus_pattern (message self) of
                     Some (g1 # gs) \<Rightarrow> self\<lparr>entry_device_id := Some g1\<rparr>
                   | _ \<Rightarrow> self)
      in case re_search vp_pattern (message self1) of
           Some (g1 # g2 # gs) \<Rightarrow>
             self1\<lparr>entry_device_id := None, vendor_product := Some (g1 @ '':'' @ g2)\<rparr>
         | _ \<Rightarrow> self1)"

text \<open>\<open>parse_timestamp\<close>: every path of the source ends in \<open>return None\<close>.\<close>

definition parse_timestamp :: "string \<Rightarrow> int option" where
  "parse_timestamp line = None"

definition usb_keywords :: "string list" where
  "usb_keywords = [''usb'', ''over-current'', ''overcurrent'', ''reset'', ''disconnect'',
                   ''descriptor read'', ''cannot enumerate'', ''enumeration failed'', ''timeout'']"

text \<open>The prefix strip inside the loop of \<open>filter_usb_entries\<close>.\<close>

definition strip_prefix :: "string \<Rightarrow> string" where
  "strip_prefix line =
     (if str_in ''] '' line then
        (let parts = split1 ''] '' line in if length parts > 1 then parts ! 1 else line)
      else if str_in '': '' line then
        (let parts = rsplit1 '': '' line in if length parts > 1 then parts ! 1 else line)
      else line)"

text \<open>
  \<open>filter_usb_entries\<close>. Every accepted line makes a new \<open>LogEntry\<close> object; the model
  gives it the position of its line as identity, counted from \<open>n\<close>.
\<close>

fun filter_usb_entries_from :: "nat \<Rightarrow> string list \<Rightarrow> LogEntry list" where
  "filter_usb_entries_from n [] = []"
| "filter_usb_entries_from n (line # rest) =
     (let line_lower = lower line in
      if list_ex (\<lambda>keyword. str_in keyword line_lower) usb_keywords then
        (let msg = strip_prefix line;
             ts = parse_timestamp line;
             entry = new_LogEntry n (strip msg) ts line
         in extract_device_info entry # filter_usb_entries_from (Suc n) rest)
      else filter_usb_entries_from (Suc n) rest)"

definition filter_usb_entries :: "string list \<Rightarrow> LogEntry list" where
  "filter_usb_entries log_lines = filter_usb_entries_from 0 log_lines"

section \<open>device\_enum.py: the device record\<close>

text \<open>\<open>USBDevice\<close> objects are compared by identity as well: \<open>dev_oid\<close>.\<close>

record USBDevice =
  dev_oid :: nat
  device_id :: string
  vendor_id :: "string option"
  product_id :: "string option"
  vendor_name :: "string option"
  product_name :: "string option"
  device_class :: "string option"
  speed :: "string option"
  driver :: "string option"
  busnum :: "string option"
  devnum :: "string option"
  parent_id :: "string option"

text \<open>\<open>USBDevice.__init__\<close>\<close>

definition new_USBDevice :: "nat \<Rightarrow> string \<Rightarrow> USBDevice" where
  "new_USBDevice oid did =
     \<lparr>dev_oid = oid, device_id = did, vendor_id = None, product_id = None,
      vendor_name = None, product_name = None, device_class = None, speed = None,
      driver = None, busnum = None, devnum = None, parent_id = None\<rparr>"

text \<open>\<open>USBDevice.get_id_vendor_product\<close>\<close>

definition get_id_vendor_product :: "USBDevice \<Rightarrow> string option" where
  "get_id_vendor_product self =
     (if truthy (vendor_id self) \<and> truthy (product_id self)
      then (case (vendor_id self, product_id self) of
              (Some v, Some p) \<Rightarrow> Some (v @ '':'' @ p)
            | _ \<Rightarrow> None)
      else None)"

section \<open>analyzer.py\<close>

record DeviceAnalysis =
  device :: USBDevice
  log_entries :: "LogEntry list"
  issues :: "string list"
  reset_count :: int
  disconnect_count :: int
  error_count :: int
  warning_count :: int
  over_current_count :: int
  timeout_count :: int
  descriptor_error_count :: int
  enumeration_error_count :: int

text \<open>\<open>DeviceAnalysis.__init__\<close>\<close>

definition new_DeviceAnalysis :: "USBDevice \<Rightarrow> DeviceAnalysis" where
  "new_DeviceAnalysis dev =
     \<lparr>device = dev, log_entries = [], issues = [], reset_count = 0, disconnect_count = 0,
      error_count = 0, warning_count = 0, over_current_count = 0, timeout_count = 0,
      descriptor_error_count = 0, enumeration_error_count = 0\<rparr>"

text \<open>\<open>DeviceAnalysis.add_log_entry\<close>\<close>

definition add_log_entry :: "DeviceAnalysis \<Rightarrow> LogEntry \<Rightarrow> DeviceAnalysis" where
  "add_log_entry self entry =
     (let self1 = self\<lparr>log_entries := log_entries self @ [entry]\<rparr> in
      if category entry = ''reset'' then self1\<lparr>reset_count := reset_count self1 + 1\<rparr>
      else if category entry = ''disconnect''
        then self1\<lparr>disconnect_count := disconnect_count self1 + 1\<rparr>
      else if category entry = ''error'' then self1\<lparr>error_count := error_count self1 + 1\<rparr>
      else if category entry = ''warning''
        then self1\<lparr>warning_count := warning_count self1 + 1\<rparr>
      else if category entry = ''over_current''
        then self1\<lparr>over_current_count := over_current_count self1 + 1\<rparr>
      else if category entry = ''timeout''
        then self1\<lparr>timeout_count := timeout_count self1 + 1\<rparr>
      else if category entry = ''descriptor_error''
        then self1\<lparr>descriptor_error_count := descriptor_error_count self1 + 1\<rparr>
      else if category entry = ''enumeration_error''
        then self1\<lparr>enumeration_error_count := enumeration_error_count self1 + 1\<rparr>
      else self1)"

text \<open>The issue texts of \<open>DeviceAnalysis.analyze\<close>.\<close>

definition frequent_resets_msg :: "int \<Rightarrow> string" where
  "frequent_resets_msg n =
     ''Frequent resets/reconnects ('' @ str_of_int n @ '' occurrences) - ''
     @ ''possible cable, port, or power problem''"

definition multiple_resets_msg :: "int \<Rightarrow> string" where
  "multiple_resets_msg n =
     ''Multiple resets/reconnects ('' @ str_of_int n @ '' occurrences) - ''
     @ ''check cable and port connection''"

definition over_current_msg :: "int \<Rightarrow> string" where
  "over_current_msg n =
     ''Over-current detected ('' @ str_of_int n @ '' times) - ''
     @ ''device may be drawing too much power or hub has power issue''"

definition descriptor_msg :: "int \<Rightarrow> string" where
  "descriptor_msg n =
     ''Device descriptor read errors ('' @ str_of_int n @ '' times) - ''
     @ ''possible hardware connection problem''"

definition enumeration_msg :: "int \<Rightarrow> string" where
  "enumeration_msg n =
     ''Enumeration failed ('' @ str_of_int n @ '' times) - ''
     @ ''device may not be responding properly''"

definition timeout_msg :: "int \<Rightarrow> string" where
  "timeout_msg n =
     ''USB timeouts ('' @ str_of_int n @ '' times) - ''
     @ ''device may be slow or unresponsive''"

definition unknown_class_msg :: string where
  "unknown_class_msg = ''Unknown device class - driver may not be available''"

definition no_driver_msg :: "string \<Rightarrow> string" where
  "no_driver_msg cls =
     ''No driver bound - device class '' @ cls @ '' ''
     @ ''may not have a matching kernel module''"

definition errors_msg :: "int \<Rightarrow> string" where
  "errors_msg n =
     ''Multiple errors detected ('' @ str_of_int n @ '' times) - ''
     @ ''device may be malfunctioning''"

definition append_issue :: "DeviceAnalysis \<Rightarrow> string \<Rightarrow> DeviceAnalysis" where
  "append_issue self msg = self\<lparr>issues := issues self @ [msg]\<rparr>"

text \<open>\<open>DeviceAnalysis.analyze\<close>: the seven checks in the order of the source.\<close>

definition check_resets :: "DeviceAnalysis \<Rightarrow> DeviceAnalysis" where
  "check_resets self =
     (let total_resets = reset_count self + disconnect_count self in
      if total_resets \<ge> 5 then append_issue self (frequent_resets_msg total_resets)
      else if total_resets \<ge> 3 then append_issue self (multiple_resets_msg total_resets)
      else self)"

definition check_over_current :: "DeviceAnalysis \<Rightarrow> DeviceAnalysis" where
  "check_over_current self =
     (if over_current_count self > 0
      then append_issue self (over_current_msg (over_current_count self)) else self)"

definition check_descriptor :: "DeviceAnalysis \<Rightarrow> DeviceAnalysis" where
  "check_descriptor self =
     (if descriptor_error_count self > 0
      then append_issue self (descriptor_msg (descriptor_error_count self)) else self)"

definition check_enumeration :: "DeviceAnalysis \<Rightarrow> DeviceAnalysis" where
  "check_enumeration self =
     (if enumeration_error_count self > 0
      then append_issue self (enumeration_msg (enumeration_error_count self)) else self)"

definition check_timeout :: "DeviceAnalysis \<Rightarrow> DeviceAnalysis" where
  "check_timeout self =
     (if timeout_count self > 0
      then append_issue self (timeout_msg (timeout_count self)) else self)"

definition check_driver :: "DeviceAnalysis \<Rightarrow> DeviceAnalysis" where
  "check_driver self =
     (if driver (device self) = None \<and> truthy (device_class (device self)) then
        (case device_class (device self) of
           Some cls \<Rightarrow>
             if cls \<in> set [''00'', ''0'', ''ff''] then append_issue self unknown_class_msg
             else append_issue self (no_driver_msg cls)
         | None \<Rightarrow> self)
      else self)"

definition check_errors :: "DeviceAnalysis \<Rightarrow> DeviceAnalysis" where
  "check_errors self =
     (if error_count self \<ge> 3
      then append_issue self (errors_msg (error_count self)) else self)"

definition analyze :: "DeviceAnalysis \<Rightarrow> DeviceAnalysis" where
  "analyze self =
     check_errors (check_driver (check_timeout (check_enumeration
       (check_descriptor (check_over_current (check_resets self))))))"

text \<open>
  The dict \<open>device_logs\<close> (a \<open>defaultdict(list)\<close> keyed by device objects): an
  association list in insertion order, the keys compared by identity.
  \<open>dl_append\<close> is \<open>device_logs[dev].append(entry)\<close>, \<open>dl_get\<close> is
  \<open>device_logs.get(dev, [])\<close>.
\<close>

type_synonym device_logs = "(USBDevice \<times> LogEntry list) list"

fun dl_append :: "device_logs \<Rightarrow> USBDevice \<Rightarrow> LogEntry \<Rightarrow> device_logs" where
  "dl_append [] dev entry = [(dev, [entry])]"
| "dl_append ((k, v) # rest) dev entry =
     (if dev_oid k = dev_oid dev then (k, v @ [entry]) # rest
      else (k, v) # dl_append rest dev entry)"

fun dl_get :: "device_logs \<Rightarrow> USBDevice \<Rightarrow> LogEntry list" where
  "dl_get [] dev = []"
| "dl_get ((k, v) # rest) dev = (if dev_oid k = dev_oid dev then v else dl_get rest dev)"

text \<open>
  The first loop of \<open>match_logs_to_devices\<close>: the lookup maps \<open>devices_by_id\<close> and
  \<open>devices_by_vp\<close> (a \<open>defaultdict(list)\<close>).
\<close>

fun build_lookup ::
  "USBDevice list \<Rightarrow> (string \<rightharpoonup> USBDevice) \<Rightarrow> (string \<rightharpoonup> USBDevice list)
   \<Rightarrow> (string \<rightharpoonup> USBDevice) \<times> (string \<rightharpoonup> USBDevice list)" where
  "build_lookup [] devices_by_id devices_by_vp = (devices_by_id, devices_by_vp)"
| "build_lookup (dev # rest) devices_by_id devices_by_vp =
     (let by_id1 = (if device_id dev \<noteq> [] then devices_by_id(device_id dev \<mapsto> dev)
                    else devices_by_id);
          vp_id = get_id_vendor_product dev;
          by_vp1 = (case vp_id of
                      Some k \<Rightarrow>
                        if truthy vp_id
                        then devices_by_vp(k \<mapsto>
                               (case devices_by_vp k of None \<Rightarrow> [] | Some ds \<Rightarrow> ds) @ [dev])
                        else devices_by_vp
                    | None \<Rightarrow> devices_by_vp)
      in build_lookup rest by_id1 by_vp1)"

text \<open>The body of the second loop: one entry.\<close>

definition match_entry ::
  "(string \<rightharpoonup> USBDevice) \<Rightarrow> (string \<rightharpoonup> USBDevice list) \<Rightarrow> device_logs \<Rightarrow> LogEntry
   \<Rightarrow> device_logs" where
  "match_entry devices_by_id devices_by_vp dl entry =
     (let (dl1, matched) =
            (case entry_device_id entry of
               Some i \<Rightarrow>
                 (if truthy (entry_device_id entry) then
                    (case devices_by_id i of
                       Some dev \<Rightarrow> (dl_append dl dev entry, True)
                     | None \<Rightarrow> (dl, False))
                  else (dl, False))
             | None \<Rightarrow> (dl, False))
      in if \<not> matched \<and> truthy (vendor_product entry) then
           (case vendor_product entry of
              Some k \<Rightarrow>
                (case devices_by_vp k of
                   Some ds \<Rightarrow> foldl (\<lambda>acc dev. dl_append acc dev entry) dl1 ds
                 | None \<Rightarrow> dl1)
            | None \<Rightarrow> dl1)
         else dl1)"

text \<open>\<open>match_logs_to_devices\<close>\<close>

definition match_logs_to_devices :: "USBDevice list \<Rightarrow> LogEntry list \<Rightarrow> device_logs" where
  "match_logs_to_devices devices entries =
     (let (devices_by_id, devices_by_vp) = build_lookup devices Map.empty Map.empty
      in foldl (match_entry devices_by_id devices_by_vp) [] entries)"

text \<open>One analysis: created, filled with the entries, analyzed.\<close>

definition run_analysis :: "USBDevice \<Rightarrow> LogEntry list \<Rightarrow> DeviceAnalysis" where
  "run_analysis dev entries = analyze (foldl add_log_entry (new_DeviceAnalysis dev) entries)"

text \<open>\<open>analyze_devices\<close>: the listed devices, then the keys of \<open>device_logs\<close> not in the list.\<close>

definition analyze_devices :: "USBDevice list \<Rightarrow> LogEntry list \<Rightarrow> DeviceAnalysis list" where
  "analyze_devices devices entries =
     (let dl = match_logs_to_devices devices entries;
          analyses = map (\<lambda>dev. run_analysis dev (dl_get dl dev)) devices;
          ghosts = map (\<lambda>(dev, es). run_analysis dev es)
                       (filter (\<lambda>(dev, es). \<not> list_ex (\<lambda>d. dev_oid d = dev_oid dev) devices) dl)
      in analyses @ ghosts)"


text \<open>\<open>get_unmatched_logs\<close>; \<open>matched_entries\<close> is a set of objects, compared by identity.\<close>

definition get_unmatched_logs :: "USBDevice list \<Rightarrow> LogEntry list \<Rightarrow> LogEntry list" where
  "get_unmatched_logs devices entries =
     (let dl = match_logs_to_devices devices entries;
          matched_entries = concat (map snd dl)
      in filter (\<lambda>entry. \<not> list_ex (\<lambda>m. entry_oid m = entry_oid entry) matched_entries)
                entries)"

section \<open>Notions used in the statements\<close>

text \<open>
  What a call of \<open>analyze\<close> appends to the issues list, and the two messages of the
  resets/reconnects check.
\<close>

definition emitted :: "DeviceAnalysis \<Rightarrow> string list" where
  "emitted self = drop (length (issues self)) (issues (analyze self))"

definition is_reset_issue :: "string \<Rightarrow> bool" where
  "is_reset_issue msg =
     (prefix ''Frequent resets/reconnects ('' msg \<or> prefix ''Multiple resets/reconnects ('' msg)"

text \<open>The issues of the driver check, as a function of the device.\<close>

definition driver_issues :: "USBDevice \<Rightarrow> string list" where
  "driver_issues dev =
     (case device_class dev of
        None \<Rightarrow> []
      | Some cls \<Rightarrow>
          if driver dev = None \<and> cls \<noteq> [] then
            (if cls \<in> set [''00'', ''0'', ''ff''] then [unknown_class_msg] else [no_driver_msg cls])
          else [])"

text \<open>A text matches one of the eight category rules; the fixed list of categories.\<close>

definition matches_category_rule :: "string \<Rightarrow> bool" where
  "matches_category_rule text =
     (let t = lower text in
      str_in ''over-current'' t \<or> str_in ''overcurrent'' t
      \<or> (str_in ''reset'' t \<and> str_in ''usb'' t)
      \<or> (str_in ''disconnect'' t \<and> str_in ''usb'' t)
      \<or> str_in ''error'' t \<or> str_in ''failed'' t
      \<or> str_in ''timeout'' t
      \<or> str_in ''descriptor read'' t
      \<or> str_in ''cannot enumerate'' t \<or> str_in ''enumeration failed'' t
      \<or> str_in ''warning'' t \<or> str_in ''warn'' t)"

definition categories :: "string list" where
  "categories = [''info'', ''error'', ''warning'', ''reset'', ''disconnect'', ''over_current'',
                 ''timeout'', ''descriptor_error'', ''enumeration_error'']"

text \<open>
  A vendor:product match begins at the start of \<open>s\<close>: four word characters, a colon,
  four word characters.
\<close>

definition vp_at :: "string \<Rightarrow> bool" where
  "vp_at s = (length s \<ge> 9 \<and> list_all is_word (take 4 s) \<and> s ! 4 = CHR '':''
              \<and> list_all is_word (take 4 (drop 5 s)))"

text \<open>
  The correlation rules in the words of the specification. The entry goes to the device
  whose \<open>device_id\<close> is the entry's (non-empty) one; when several listed devices have
  that id, to the last of them. Otherwise to every listed device whose vendor:product
  key is the entry's. Otherwise to no device.
\<close>

definition id_candidates :: "USBDevice list \<Rightarrow> string \<Rightarrow> USBDevice list" where
  "id_candidates devices i = filter (\<lambda>d. device_id d = i) devices"

definition vp_candidates :: "USBDevice list \<Rightarrow> string \<Rightarrow> USBDevice list" where
  "vp_candidates devices k = filter (\<lambda>d. get_id_vendor_product d = Some k) devices"

definition vp_targets :: "USBDevice list \<Rightarrow> LogEntry \<Rightarrow> USBDevice list" where
  "vp_targets devices entry =
     (case vendor_product entry of None \<Rightarrow> [] | Some k \<Rightarrow> vp_candidates devices k)"

definition correlate_targets :: "USBDevice list \<Rightarrow> LogEntry \<Rightarrow> USBDevice list" where
  "correlate_targets devices entry =
     (case entry_device_id entry of
        None \<Rightarrow> vp_targets devices entry
      | Some i \<Rightarrow>
          if i \<noteq> [] \<and> id_candidates devices i \<noteq> [] then [last (id_candidates devices i)]
          else vp_targets devices entry)"

text \<open>The entry appended to the lists of the given devices, one after the other.\<close>

definition attach :: "device_logs \<Rightarrow> LogEntry \<Rightarrow> USBDevice list \<Rightarrow> device_logs" where
  "attach dl entry ts = foldl (\<lambda>acc dev. dl_append acc dev entry) dl ts"

subsection \<open>Example inputs\<close>

definition over_current_entry :: LogEntry where
  "over_current_entry = extract_device_info (new_LogEntry 0 ''over-current detected'' None [])"

definition analysis_2_2 :: DeviceAnalysis where
  "analysis_2_2 = (new_DeviceAnalysis (new_USBDevice 0 ''1-1''))
                    \<lparr>reset_count := 2, disconnect_count := 2\<rparr>"

definition analysis_5_0 :: DeviceAnalysis where
  "analysis_5_0 = (new_DeviceAnalysis (new_USBDevice 0 ''1-1''))
                    \<lparr>reset_count := 5, disconnect_count := 0\<rparr>"

definition analysis_over_current :: DeviceAnalysis where
  "analysis_over_current =
     add_log_entry (new_DeviceAnalysis (new_USBDevice 0 ''1-1'')) over_current_entry"

text \<open>The scenario of claim C1.\<close>

definition scenario_device :: USBDevice where
  "scenario_device = (new_USBDevice 0 ''1-1.2'')
     \<lparr>vendor_id := Some ''1234'', product_id := Some ''5678'', driver := None,
      device_class := Some ''ff''\<rparr>"

definition scenario_logs :: "string list" where
  "scenario_logs = [''usb 1-1.2: reset'', ''usb 1-1.2: reset'', ''usb 1-1.2: reset'',
                    ''usb 1-1.2: over-current detected'']"

definition bracketed_logs :: "string list" where
  "bracketed_logs = map (\<lambda>line. ''[ 12.5] '' @ line) scenario_logs"

text \<open>Two devices of one model, and entries for them.\<close>

definition twin_a :: USBDevice where
  "twin_a = (new_USBDevice 0 ''1-1'')\<lparr>vendor_id := Some ''1234'', product_id := Some ''5678''\<rparr>"

definition twin_b :: USBDevice where
  "twin_b = (new_USBDevice 1 ''1-2'')\<lparr>vendor_id := Some ''1234'', product_id := Some ''5678''\<rparr>"

definition vp_only_entry :: LogEntry where
  "vp_only_entry = \<lparr>entry_oid = 0, message = ''New USB device found, ID 1234:5678'',
                     timestamp = None, raw_line = ''[ 1.0] New USB device found, ID 1234:5678'',
                     entry_device_id = None, vendor_product = Some ''1234:5678'',
                     category = ''info''\<rparr>"

definition id_entry :: LogEntry where
  "id_entry = \<lparr>entry_oid = 1, message = ''usb 1-1: reset high-speed USB device'',
                timestamp = None, raw_line = ''[ 2.0] usb 1-1: reset high-speed USB device'',
                entry_device_id = Some ''1-1'', vendor_product = None, category = ''reset''\<rparr>"

definition stray_entry :: LogEntry where
  "stray_entry = \<lparr>entry_oid = 2, message = ''usb 7-3: USB disconnect, device number 2'',
                   timestamp = None, raw_line = ''[ 3.0] usb 7-3: USB disconnect, device number 2'',
                   entry_device_id = Some ''7-3'', vendor_product = None,
                   category = ''disconnect''\<rparr>"

text \<open>A listed device, and log lines of a device that is not listed.\<close>

definition listed_device :: USBDevice where
  "listed_device = (new_USBDevice 0 ''1-1'')
     \<lparr>vendor_id := Some ''1d6b'', product_id := Some ''0002'', driver := Some ''hub''\<rparr>"

definition ghost_lines :: "string list" where
  "ghost_lines = [''[ 3.1] usb 3-1: USB disconnect, device number 4'',
                  ''[ 3.2] device 046d:c077 over-current condition'']"

text \<open>
  The entries that \<open>filter_usb_entries\<close> makes of the example lines; \<open>n\<close> is the
  identity of the entry.
\<close>

definition stripped_reset_entry :: "nat \<Rightarrow> LogEntry" where
  "stripped_reset_entry n =
     \<lparr>entry_oid = n, message = ''reset'', timestamp = None,
      raw_line = ''usb 1-1.2: reset'',
      entry_device_id = None, vendor_product = None, category = ''info''\<rparr>"

definition stripped_over_current_entry :: "nat \<Rightarrow> LogEntry" where
  "stripped_over_current_entry n =
     \<lparr>entry_oid = n, message = ''over-current detected'', timestamp = None,
      raw_line = ''usb 1-1.2: over-current detected'',
      entry_device_id = None, vendor_product = None, category = ''over_current''\<rparr>"

definition bracketed_reset_entry :: "nat \<Rightarrow> LogEntry" where
  "bracketed_reset_entry n =
     \<lparr>entry_oid = n, message = ''usb 1-1.2: reset'', timestamp = None,
      raw_line = ''[ 12.5] usb 1-1.2: reset'',
      entry_device_id = Some ''1-1.2'', vendor_product = None, category = ''reset''\<rparr>"

definition bracketed_over_current_entry :: "nat \<Rightarrow> LogEntry" where
  "bracketed_over_current_entry n =
     \<lparr>entry_oid = n, message = ''usb 1-1.2: over-current detected'', timestamp = None,
      raw_line = ''[ 12.5] usb 1-1.2: over-current detected'',
      entry_device_id = Some ''1-1.2'', vendor_product = None, category = ''over_current''\<rparr>"

definition bare_reset_entry :: "nat \<Rightarrow> LogEntry" where
  "bare_reset_entry n =
     \<lparr>entry_oid = n, message = ''reset'', timestamp = None,
      raw_line = ''reset'',
      entry_device_id = None, vendor_product = None, category = ''info''\<rparr>"

definition reset_high_speed_entry :: "nat \<Rightarrow> LogEntry" where
  "reset_high_speed_entry n =
     \<lparr>entry_oid = n, message = ''usb 1-1: reset high-speed USB device'', timestamp = None,
      raw_line = ''[ 12.5] usb 1-1: reset high-speed USB device'',
      entry_device_id = Some ''1-1'', vendor_product = None, category = ''reset''\<rparr>"

definition ghost_disconnect_entry :: "nat \<Rightarrow> LogEntry" where
  "ghost_disconnect_entry n =
     \<lparr>entry_oid = n, message = ''usb 3-1: USB disconnect, device number 4'', timestamp = None,
      raw_line = ''[ 3.1] usb 3-1: USB disconnect, device number 4'',
      entry_device_id = Some ''3-1'', vendor_product = None, category = ''disconnect''\<rparr>"

definition ghost_over_current_entry :: "nat \<Rightarrow> LogEntry" where
  "ghost_over_current_entry n =
     \<lparr>entry_oid = n, message = ''device 046d:c077 over-current condition'', timestamp = None,
      raw_line = ''[ 3.2] device 046d:c077 over-current condition'',
      entry_device_id = None, vendor_product = Some ''046d:c077'', category = ''over_current''\<rparr>"



section \<open>The classifier\<close>

lemma categorize_fields [simp]:
  "message (categorize e) = message e" "entry_oid (categorize e) = entry_oid e"
  "timestamp (categorize e) = timestamp e" "raw_line (categorize e) = raw_line e"
  "entry_device_id (categorize e) = entry_device_id e"
  "vendor_product (categorize e) = vendor_product e"
  by (simp_all add: categorize_def Let_def)

lemma extract_fields [simp]:
  "message (extract_device_info e) = message e" "entry_oid (extract_device_info e) = entry_oid e"
  "timestamp (extract_device_info e) = timestamp e" "raw_line (extract_device_info e) = raw_line e"
  "category (extract_device_info e) = category e"
  by (simp_all add: extract_device_info_def Let_def split: option.splits list.splits)

lemma category_categorize:
  "category (categorize e) =
     (let t = lower (message e) in
      if str_in ''over-current'' t \<or> str_in ''overcurrent'' t then ''over_current''
      else if str_in ''reset'' t \<and> str_in ''usb'' t then ''reset''
      else if str_in ''disconnect'' t \<and> str_in ''usb'' t then ''disconnect''
      else if str_in ''error'' t \<or> str_in ''failed'' t then ''error''
      else if str_in ''timeout'' t then ''timeout''
      else if str_in ''descriptor read'' t then ''descriptor_error''
      else if str_in ''cannot enumerate'' t \<or> str_in ''enumeration failed'' t
        then ''enumeration_error''
      else if str_in ''warning'' t \<or> str_in ''warn'' t then ''warning''
      else category e)"
  by (simp add: categorize_def Let_def)

lemma new_LogEntry_fields [simp]:
  "message (new_LogEntry oid msg ts raw) = msg" "entry_oid (new_LogEntry oid msg ts raw) = oid"
  "timestamp (new_LogEntry oid msg ts raw) = ts" "raw_line (new_LogEntry oid msg ts raw) = raw"
  "entry_device_id (new_LogEntry oid msg ts raw) = None"
  "vendor_product (new_LogEntry oid msg ts raw) = None"
  by (simp_all add: new_LogEntry_def)

lemma filter_usb_entries_from_shape:
  "e \<in> set (filter_usb_entries_from n ls) \<Longrightarrow>
     e = extract_device_info
           (new_LogEntry (entry_oid e) (strip (strip_prefix (raw_line e))) None (raw_line e))"
proof (induction ls arbitrary: n)
  case Nil
  then show ?case by simp
next
  case (Cons l ls)
  then show ?case
    by (auto simp: Let_def parse_timestamp_def split: if_splits)
qed

subsection \<open>The vendor:product pattern\<close>

lemma rmatch_RRep4:
  "rmatch (RRep4 (RChar P)) s =
     (if 4 \<le> length s \<and> list_all P (take 4 s) then [([], drop 4 s)] else [])"
proof (cases s)
  case Nil
  then show ?thesis by (simp add: RRep4_def)
next
  case s1: (Cons c1 t1)
  show ?thesis
  proof (cases t1)
    case Nil
    with s1 show ?thesis by (simp add: RRep4_def)
  next
    case s2: (Cons c2 t2)
    show ?thesis
    proof (cases t2)
      case Nil
      with s1 s2 show ?thesis by (simp add: RRep4_def)
    next
      case s3: (Cons c3 t3)
      show ?thesis
      proof (cases t3)
        case Nil
        with s1 s2 s3 show ?thesis by (simp add: RRep4_def)
      next
        case (Cons c4 t4)
        with s1 s2 s3 show ?thesis by (simp add: RRep4_def)
      qed
    qed
  qed
qed

lemma rmatch_group_RRep4:
  "rmatch (RGroup (RRep4 (RChar P))) s =
     (if 4 \<le> length s \<and> list_all P (take 4 s) then [([take 4 s], drop 4 s)] else [])"
  by (simp add: rmatch_RRep4)

lemma rmatch_colon_group:
  "rmatch (RSeq (RLit CHR '':'') (RGroup (RRep4 (RChar P)))) s =
     (if 5 \<le> length s \<and> s ! 0 = CHR '':'' \<and> list_all P (take 4 (drop 1 s))
      then [([take 4 (drop 1 s)], drop 5 s)] else [])"
proof (cases s)
  case Nil
  then show ?thesis by (simp add: RLit_def)
next
  case (Cons c t)
  then show ?thesis
    by (simp add: RLit_def rmatch_group_RRep4 del: rmatch.simps(5))
qed

lemma rmatch_vp:
  "rmatch vp_pattern s =
     (if vp_at s then [([take 4 s, take 4 (drop 5 s)], drop 9 s)] else [])"
proof -
  have "rmatch vp_pattern s =
    concat (map (\<lambda>(g1, r1). map (\<lambda>(g2, r2). (g1 @ g2, r2))
                   (rmatch (RSeq (RLit CHR '':'') (RGroup (RRep4 (RChar is_word)))) r1))
                (rmatch (RGroup (RRep4 (RChar is_word))) s))"
    by (simp only: vp_pattern_def rmatch.simps(2))
  also have "\<dots> = (if vp_at s then [([take 4 s, take 4 (drop 5 s)], drop 9 s)] else [])"
    unfolding rmatch_group_RRep4 rmatch_colon_group
    by (auto simp: vp_at_def)
  finally show ?thesis .
qed

lemma re_search_vp:
  "\<exists>i. vp_at (drop i s) \<Longrightarrow>
   \<exists>i. vp_at (drop i s) \<and> (\<forall>j<i. \<not> vp_at (drop j s))
       \<and> re_search vp_pattern s = Some [take 4 (drop i s), take 4 (drop 5 (drop i s))]"
proof (induction s)
  case Nil
  then show ?case by (simp add: vp_at_def)
next
  case (Cons c cs)
  show ?case
  proof (cases "vp_at (c # cs)")
    case True
    then have "re_search vp_pattern (c # cs) = Some [take 4 (c # cs), take 4 (drop 5 (c # cs))]"
      by (simp add: rmatch_vp)
    with True show ?thesis
      by (intro exI [of _ 0]) simp
  next
    case False
    from Cons.prems obtain i where i: "vp_at (drop i (c # cs))" by blast
    with False obtain k where "i = Suc k" by (cases i) auto
    with i have "\<exists>i. vp_at (drop i cs)" by auto
    from Cons.IH [OF this] obtain m where m: "vp_at (drop m cs)"
      "\<forall>j<m. \<not> vp_at (drop j cs)"
      "re_search vp_pattern cs = Some [take 4 (drop m cs), take 4 (drop 5 (drop m cs))]"
      by blast
    have least: "\<forall>j<Suc m. \<not> vp_at (drop j (c # cs))"
    proof (intro allI impI)
      fix j assume "j < Suc m"
      then show "\<not> vp_at (drop j (c # cs))"
        using False m(2) by (cases j) auto
    qed
    have "re_search vp_pattern (c # cs) = re_search vp_pattern cs"
      using False by (simp add: rmatch_vp)
    with m least show ?thesis
      by (intro exI [of _ "Suc m"]) simp
  qed
qed

lemma vp_at_shape:
  assumes "vp_at s"
  shows "s = take 4 s @ '':'' @ take 4 (drop 5 s) @ drop 9 s"
    and "length (take 4 s) = 4" and "length (take 4 (drop 5 s)) = 4"
    and "list_all is_word (take 4 s)" and "list_all is_word (take 4 (drop 5 s))"
proof -
  from assms have len: "9 \<le> length s" and colon: "s ! 4 = CHR '':''"
    by (simp_all add: vp_at_def)
  have "s = take 4 s @ drop 4 s" by simp
  moreover have "drop 4 s = s ! 4 # drop 5 s"
    using len Cons_nth_drop_Suc [of 4 s] by simp
  moreover have "drop 5 s = take 4 (drop 5 s) @ drop 9 s"
    using append_take_drop_id [of 4 "drop 5 s"] by simp
  ultimately show "s = take 4 s @ '':'' @ take 4 (drop 5 s) @ drop 9 s"
    using colon by simp
  show "length (take 4 s) = 4" "length (take 4 (drop 5 s)) = 4"
    using len by simp_all
  show "list_all is_word (take 4 s)" "list_all is_word (take 4 (drop 5 s))"
    using assms by (simp_all add: vp_at_def)
qed

lemma vp_at_intro:
  assumes "length a = 4" "length b = 4" "list_all is_word a" "list_all is_word b"
  shows "vp_at (a @ '':'' @ b @ post)"
  using assms by (simp add: vp_at_def nth_append)


lemma extract_with_vp:
  assumes "re_search vp_pattern (message self) = Some [a, b]"
  shows "entry_device_id (extract_device_info self) = None"
    and "vendor_product (extract_device_info self) = Some (a @ '':'' @ b)"
  using assms
  by (simp_all add: extract_device_info_def Let_def split: option.splits list.splits)

lemma extract_ids_of_message:
  "message e1 = message e2 \<Longrightarrow> entry_device_id e1 = None \<Longrightarrow> entry_device_id e2 = None
   \<Longrightarrow> vendor_product e1 = None \<Longrightarrow> vendor_product e2 = None
   \<Longrightarrow> entry_device_id (extract_device_info e1) = entry_device_id (extract_device_info e2)
     \<and> vendor_product (extract_device_info e1) = vendor_product (extract_device_info e2)"
  by (simp add: extract_device_info_def Let_def split: option.splits list.splits)

subsection \<open>The example lines\<close>

lemma line_reset:
  "filter_usb_entries_from n (''usb 1-1.2: reset'' # rest)
   = stripped_reset_entry n # filter_usb_entries_from (Suc n) rest"
  unfolding stripped_reset_entry_def by code_simp

lemma line_over_current:
  "filter_usb_entries_from n (''usb 1-1.2: over-current detected'' # rest)
   = stripped_over_current_entry n # filter_usb_entries_from (Suc n) rest"
  unfolding stripped_over_current_entry_def by code_simp

lemma line_bracketed_reset:
  "filter_usb_entries_from n (''[ 12.5] usb 1-1.2: reset'' # rest)
   = bracketed_reset_entry n # filter_usb_entries_from (Suc n) rest"
  unfolding bracketed_reset_entry_def by code_simp

lemma line_bracketed_over_current:
  "filter_usb_entries_from n (''[ 12.5] usb 1-1.2: over-current detected'' # rest)
   = bracketed_over_current_entry n # filter_usb_entries_from (Suc n) rest"
  unfolding bracketed_over_current_entry_def by code_simp

lemma line_bare_reset:
  "filter_usb_entries_from n (''reset'' # rest)
   = bare_reset_entry n # filter_usb_entries_from (Suc n) rest"
  unfolding bare_reset_entry_def by code_simp

lemma line_reset_high_speed:
  "filter_usb_entries_from n (''[ 12.5] usb 1-1: reset high-speed USB device'' # rest)
   = reset_high_speed_entry n # filter_usb_entries_from (Suc n) rest"
  unfolding reset_high_speed_entry_def by code_simp

lemma line_ghost_disconnect:
  "filter_usb_entries_from n (''[ 3.1] usb 3-1: USB disconnect, device number 4'' # rest)
   = ghost_disconnect_entry n # filter_usb_entries_from (Suc n) rest"
  unfolding ghost_disconnect_entry_def by code_simp

lemma line_ghost_over_current:
  "filter_usb_entries_from n (''[ 3.2] device 046d:c077 over-current condition'' # rest)
   = ghost_over_current_entry n # filter_usb_entries_from (Suc n) rest"
  unfolding ghost_over_current_entry_def by code_simp

lemma stripped_reset_entry_fields [simp]:
  "entry_oid (stripped_reset_entry n) = n" "message (stripped_reset_entry n) = ''reset''"
  "timestamp (stripped_reset_entry n) = None"
  "raw_line (stripped_reset_entry n) = ''usb 1-1.2: reset''"
  "entry_device_id (stripped_reset_entry n) = None" "vendor_product (stripped_reset_entry n) = None"
  "category (stripped_reset_entry n) = ''info''"
  by (simp_all add: stripped_reset_entry_def)

lemma stripped_over_current_entry_fields [simp]:
  "entry_oid (stripped_over_current_entry n) = n" "message (stripped_over_current_entry n) = ''over-current detected''"
  "timestamp (stripped_over_current_entry n) = None"
  "raw_line (stripped_over_current_entry n) = ''usb 1-1.2: over-current detected''"
  "entry_device_id (stripped_over_current_entry n) = None" "vendor_product (stripped_over_current_entry n) = None"
  "category (stripped_over_current_entry n) = ''over_current''"
  by (simp_all add: stripped_over_current_entry_def)

lemma bracketed_reset_entry_fields [simp]:
  "entry_oid (bracketed_reset_entry n) = n" "message (bracketed_reset_entry n) = ''usb 1-1.2: reset''"
  "timestamp (bracketed_reset_entry n) = None"
  "raw_line (bracketed_reset_entry n) = ''[ 12.5] usb 1-1.2: reset''"
  "entry_device_id (bracketed_reset_entry n) = Some ''1-1.2''" "vendor_product (bracketed_reset_entry n) = None"
  "category (bracketed_reset_entry n) = ''reset''"
  by (simp_all add: bracketed_reset_entry_def)

lemma bracketed_over_current_entry_fields [simp]:
  "entry_oid (bracketed_over_current_entry n) = n" "message (bracketed_over_current_entry n) = ''usb 1-1.2: over-current detected''"
  "timestamp (bracketed_over_current_entry n) = None"
  "raw_line (bracketed_over_current_entry n) = ''[ 12.5] usb 1-1.2: over-current detected''"
  "entry_device_id (bracketed_over_current_entry n) = Some ''1-1.2''" "vendor_product (bracketed_over_current_entry n) = None"
  "category (bracketed_over_current_entry n) = ''over_current''"
  by (simp_all add: bracketed_over_current_entry_def)

lemma bare_reset_entry_fields [simp]:
  "entry_oid (bare_reset_entry n) = n" "message (bare_reset_entry n) = ''reset''"
  "timestamp (bare_reset_entry n) = None"
  "raw_line (bare_reset_entry n) = ''reset''"
  "entry_device_id (bare_reset_entry n) = None" "vendor_product (bare_reset_entry n) = None"
  "category (bare_reset_entry n) = ''info''"
  by (simp_all add: bare_reset_entry_def)

lemma reset_high_speed_entry_fields [simp]:
  "entry_oid (reset_high_speed_entry n) = n" "message (reset_high_speed_entry n) = ''usb 1-1: reset high-speed USB device''"
  "timestamp (reset_high_speed_entry n) = None"
  "raw_line (reset_high_speed_entry n) = ''[ 12.5] usb 1-1: reset high-speed USB device''"
  "entry_device_id (reset_high_speed_entry n) = Some ''1-1''" "vendor_product (reset_high_speed_entry n) = None"
  "category (reset_high_speed_entry n) = ''reset''"
  by (simp_all add: reset_high_speed_entry_def)

lemma ghost_disconnect_entry_fields [simp]:
  "entry_oid (ghost_disconnect_entry n) = n" "message (ghost_disconnect_entry n) = ''usb 3-1: USB disconnect, device number 4''"
  "timestamp (ghost_disconnect_entry n) = None"
  "raw_line (ghost_disconnect_entry n) = ''[ 3.1] usb 3-1: USB disconnect, device number 4''"
  "entry_device_id (ghost_disconnect_entry n) = Some ''3-1''" "vendor_product (ghost_disconnect_entry n) = None"
  "category (ghost_disconnect_entry n) = ''disconnect''"
  by (simp_all add: ghost_disconnect_entry_def)

lemma ghost_over_current_entry_fields [simp]:
  "entry_oid (ghost_over_current_entry n) = n" "message (ghost_over_current_entry n) = ''device 046d:c077 over-current condition''"
  "timestamp (ghost_over_current_entry n) = None"
  "raw_line (ghost_over_current_entry n) = ''[ 3.2] device 046d:c077 over-current condition''"
  "entry_device_id (ghost_over_current_entry n) = None" "vendor_product (ghost_over_current_entry n) = Some ''046d:c077''"
  "category (ghost_over_current_entry n) = ''over_current''"
  by (simp_all add: ghost_over_current_entry_def)

lemma scenario_entries:
  "filter_usb_entries scenario_logs =
    [stripped_reset_entry 0, stripped_reset_entry 1, stripped_reset_entry 2,
     stripped_over_current_entry 3]"
  unfolding filter_usb_entries_def scenario_logs_def line_reset line_over_current
  by (simp add: numeral_eq_Suc)

lemma bracketed_entries:
  "filter_usb_entries bracketed_logs =
    [bracketed_reset_entry 0, bracketed_reset_entry 1, bracketed_reset_entry 2,
     bracketed_over_current_entry 3]"
proof -
  have b: "bracketed_logs = [''[ 12.5] usb 1-1.2: reset'', ''[ 12.5] usb 1-1.2: reset'',
          ''[ 12.5] usb 1-1.2: reset'', ''[ 12.5] usb 1-1.2: over-current detected'']"
    by (simp add: bracketed_logs_def scenario_logs_def)
  show ?thesis
    unfolding filter_usb_entries_def b line_bracketed_reset line_bracketed_over_current
    by (simp add: numeral_eq_Suc)
qed

lemma ghost_entries:
  "filter_usb_entries ghost_lines = [ghost_disconnect_entry 0, ghost_over_current_entry 1]"
  unfolding filter_usb_entries_def ghost_lines_def line_ghost_disconnect line_ghost_over_current
  by simp

subsection \<open>Claims about the classifier\<close>

text \<open>
  Claim C3, as amended. Extraction reads the message of the entry, which is the raw
  line after the prefix strip and \<open>strip()\<close>: two lines with the same stripped text
  yield the same identifiers, so nothing in front of the strip boundary is extracted.
\<close>

theorem extraction_on_stripped_message:
  assumes "e1 \<in> set (filter_usb_entries ls1)" and "e2 \<in> set (filter_usb_entries ls2)"
    and "strip (strip_prefix (raw_line e1)) = strip (strip_prefix (raw_line e2))"
  shows "message e1 = strip (strip_prefix (raw_line e1))
       \<and> entry_device_id e1 = entry_device_id e2 \<and> vendor_product e1 = vendor_product e2"
proof -
  let ?n1 = "new_LogEntry (entry_oid e1) (strip (strip_prefix (raw_line e1))) None (raw_line e1)"
  let ?n2 = "new_LogEntry (entry_oid e2) (strip (strip_prefix (raw_line e2))) None (raw_line e2)"
  have s1: "e1 = extract_device_info ?n1"
    using assms(1) unfolding filter_usb_entries_def by (rule filter_usb_entries_from_shape)
  have s2: "e2 = extract_device_info ?n2"
    using assms(2) unfolding filter_usb_entries_def by (rule filter_usb_entries_from_shape)
  have m: "message e1 = strip (strip_prefix (raw_line e1))"
    by (subst s1) simp
  have "entry_device_id (extract_device_info ?n1) = entry_device_id (extract_device_info ?n2)
     \<and> vendor_product (extract_device_info ?n1) = vendor_product (extract_device_info ?n2)"
    by (rule extract_ids_of_message) (simp_all add: assms(3))
  with s1 s2 m show ?thesis by simp
qed

theorem extraction_on_stripped_message_witness:
  "hd (filter_usb_entries [''usb 1-1.2: reset'']) \<in> set (filter_usb_entries [''usb 1-1.2: reset''])
   \<and> hd (filter_usb_entries [''reset'']) \<in> set (filter_usb_entries [''reset''])
   \<and> strip (strip_prefix (raw_line (hd (filter_usb_entries [''usb 1-1.2: reset'']))))
       = strip (strip_prefix (raw_line (hd (filter_usb_entries [''reset'']))))
   \<and> message (hd (filter_usb_entries [''usb 1-1.2: reset''])) = ''reset''
   \<and> entry_device_id (hd (filter_usb_entries [''usb 1-1.2: reset''])) = None
   \<and> vendor_product (hd (filter_usb_entries [''usb 1-1.2: reset''])) = None"
proof -
  let ?e1 = "hd (filter_usb_entries [''usb 1-1.2: reset''])"
  let ?e2 = "hd (filter_usb_entries [''reset''])"
  have l1: "filter_usb_entries [''usb 1-1.2: reset''] = [?e1]"
    and raw1: "raw_line ?e1 = ''usb 1-1.2: reset''"
    unfolding filter_usb_entries_def line_reset by simp_all
  have l2: "filter_usb_entries [''reset''] = [?e2]"
    and raw2: "raw_line ?e2 = ''reset''"
    and e2: "entry_device_id ?e2 = None" "vendor_product ?e2 = None"
    unfolding filter_usb_entries_def line_bare_reset by simp_all
  have h1: "?e1 \<in> set (filter_usb_entries [''usb 1-1.2: reset''])"
    by (subst l1) simp
  have h2: "?e2 \<in> set (filter_usb_entries [''reset''])"
    by (subst l2) simp
  have r1: "strip (strip_prefix ''usb 1-1.2: reset'') = ''reset''" by code_simp
  have r2: "strip (strip_prefix ''reset'') = ''reset''" by code_simp
  have h3: "strip (strip_prefix (raw_line ?e1)) = strip (strip_prefix (raw_line ?e2))"
    unfolding raw1 raw2 r1 r2 ..
  from extraction_on_stripped_message [OF h1 h2 h3] h1 h2 h3 e2 show ?thesis
    by (simp add: raw1 r1)
qed

text \<open>
  Claim C3 as stated fails: for the line "usb 1-1.2: reset" the identifier "1-1.2"
  lies in front of the last ": " and is not extracted.
\<close>

theorem extraction_pre_strip_counterexample:
  "\<not> (map entry_device_id (filter_usb_entries [''usb 1-1.2: reset'']) = [Some ''1-1.2''])"
  unfolding filter_usb_entries_def line_reset by simp

lemma extraction_after_bracket:
  "map entry_device_id (filter_usb_entries [''[ 12.5] usb 1-1.2: reset'']) = [Some ''1-1.2'']"
  unfolding filter_usb_entries_def line_bracketed_reset by simp

text \<open>
  Claim C4, as amended. The category rules read the message of the entry, which is the
  raw line after the prefix strip and \<open>strip()\<close>, not the raw line. For every entry
  that \<open>filter_usb_entries\<close> produces: when its message contains both "reset" and
  "usb" in any case, its category is \<open>reset\<close>, unless the message contains
  "over-current" or "overcurrent", and then it is \<open>over_current\<close>.
\<close>

theorem reset_rule_on_message:
  assumes "e \<in> set (filter_usb_entries ls)"
    and "str_in ''reset'' (lower (message e))" and "str_in ''usb'' (lower (message e))"
  shows "message e = strip (strip_prefix (raw_line e))
       \<and> category e = (if str_in ''over-current'' (lower (message e))
                          \<or> str_in ''overcurrent'' (lower (message e))
                       then ''over_current'' else ''reset'')"
proof -
  let ?m = "strip (strip_prefix (raw_line e))"
  have shape: "e = extract_device_info (new_LogEntry (entry_oid e) ?m None (raw_line e))"
    using assms(1) unfolding filter_usb_entries_def by (rule filter_usb_entries_from_shape)
  have m: "message e = ?m"
    by (subst shape) simp
  have "category e = category (new_LogEntry (entry_oid e) ?m None (raw_line e))"
    by (subst shape) simp
  also have "\<dots> = (if str_in ''over-current'' (lower ?m) \<or> str_in ''overcurrent'' (lower ?m)
                   then ''over_current'' else ''reset'')"
    using assms(2,3) unfolding m by (simp add: new_LogEntry_def category_categorize)
  finally show ?thesis using m by simp
qed

theorem reset_rule_on_message_witness:
  "hd (filter_usb_entries [''[ 12.5] usb 1-1: reset high-speed USB device''])
     \<in> set (filter_usb_entries [''[ 12.5] usb 1-1: reset high-speed USB device''])
   \<and> str_in ''reset''
        (lower (message (hd (filter_usb_entries [''[ 12.5] usb 1-1: reset high-speed USB device'']))))
   \<and> str_in ''usb''
        (lower (message (hd (filter_usb_entries [''[ 12.5] usb 1-1: reset high-speed USB device'']))))
   \<and> category (hd (filter_usb_entries [''[ 12.5] usb 1-1: reset high-speed USB device'']))
       = ''reset''"
proof -
  let ?e = "hd (filter_usb_entries [''[ 12.5] usb 1-1: reset high-speed USB device''])"
  have l: "filter_usb_entries [''[ 12.5] usb 1-1: reset high-speed USB device''] = [?e]"
    and m: "message ?e = ''usb 1-1: reset high-speed USB device''"
    unfolding filter_usb_entries_def line_reset_high_speed by simp_all
  have low: "lower ''usb 1-1: reset high-speed USB device''
             = ''usb 1-1: reset high-speed usb device''"
    by code_simp
  have h1: "?e \<in> set (filter_usb_entries [''[ 12.5] usb 1-1: reset high-speed USB device''])"
    by (subst l) simp
  have h2: "str_in ''reset'' (lower (message ?e))"
    unfolding m low by code_simp
  have h3: "str_in ''usb'' (lower (message ?e))"
    unfolding m low by code_simp
  have h4: "\<not> str_in ''over-current'' (lower (message ?e))"
    unfolding m low by code_simp
  have h5: "\<not> str_in ''overcurrent'' (lower (message ?e))"
    unfolding m low by code_simp
  from reset_rule_on_message [OF h1 h2 h3] h1 h2 h3 h4 h5 show ?thesis
    by simp
qed

text \<open>
  Claim C4 as stated fails: the raw line "usb 1-1.2: reset" contains "reset" and "usb"
  and neither over-current word, but its message is "reset" and its category \<open>info\<close>.
\<close>

theorem reset_rule_raw_line_counterexample:
  "\<not> (str_in ''reset'' (lower ''usb 1-1.2: reset'') \<and> str_in ''usb'' (lower ''usb 1-1.2: reset'')
       \<and> \<not> str_in ''over-current'' (lower ''usb 1-1.2: reset'')
       \<and> \<not> str_in ''overcurrent'' (lower ''usb 1-1.2: reset'')
      \<longrightarrow> map category (filter_usb_entries [''usb 1-1.2: reset'']) = [''reset''])"
proof -
  have low: "lower ''usb 1-1.2: reset'' = ''usb 1-1.2: reset''"
    by code_simp
  have h: "str_in ''reset'' ''usb 1-1.2: reset''" "str_in ''usb'' ''usb 1-1.2: reset''"
    "\<not> str_in ''over-current'' ''usb 1-1.2: reset''"
    "\<not> str_in ''overcurrent'' ''usb 1-1.2: reset''"
    by code_simp+
  have c: "map category (filter_usb_entries [''usb 1-1.2: reset'']) = [''info'']"
    unfolding filter_usb_entries_def line_reset by simp
  show ?thesis
    unfolding low c using h by simp
qed

text \<open>
  Claim C5. When the message of an entry contains four word characters, a colon and
  four word characters, extraction leaves \<open>device_id\<close> absent and sets the
  vendor:product key to such a pair of the message joined by a colon, whatever the
  bus-path pattern matched; the pair is the leftmost one.
\<close>

theorem vendor_product_overrides:
  assumes msg: "message self = pre @ a @ '':'' @ b @ post"
    and a: "length a = 4" "list_all is_word a"
    and b: "length b = 4" "list_all is_word b"
  shows "entry_device_id (extract_device_info self) = None
       \<and> (\<exists>a' b'. vendor_product (extract_device_info self) = Some (a' @ '':'' @ b')
                  \<and> length a' = 4 \<and> list_all is_word a' \<and> length b' = 4 \<and> list_all is_word b'
                  \<and> str_in (a' @ '':'' @ b') (message self))
       \<and> ((\<forall>j<length pre. \<not> vp_at (drop j (message self)))
            \<longrightarrow> vendor_product (extract_device_info self) = Some (a @ '':'' @ b))"
proof -
  let ?s = "message self"
  have here: "vp_at (drop (length pre) ?s)"
    using vp_at_intro [OF a(1) b(1) a(2) b(2)] by (simp add: msg)
  then have "\<exists>i. vp_at (drop i ?s)" by blast
  from re_search_vp [OF this] obtain i where i: "vp_at (drop i ?s)"
    "\<forall>j<i. \<not> vp_at (drop j ?s)"
    "re_search vp_pattern ?s = Some [take 4 (drop i ?s), take 4 (drop 5 (drop i ?s))]"
    by blast
  let ?a = "take 4 (drop i ?s)" and ?b = "take 4 (drop 5 (drop i ?s))"
  note shape = vp_at_shape [OF i(1)]
  have dev: "entry_device_id (extract_device_info self) = None"
    and vp: "vendor_product (extract_device_info self) = Some (?a @ '':'' @ ?b)"
    using extract_with_vp [OF i(3)] by simp_all
  have "?s = take i ?s @ drop i ?s" by simp
  then have "?s = take i ?s @ (?a @ '':'' @ ?b) @ drop 9 (drop i ?s)"
    using shape(1) by (metis append.assoc)
  then have sub: "str_in (?a @ '':'' @ ?b) ?s"
    unfolding str_in_def sublist_def by blast
  have left: "vendor_product (extract_device_info self) = Some (a @ '':'' @ b)"
    if no: "\<forall>j<length pre. \<not> vp_at (drop j ?s)"
  proof -
    have "\<not> i < length pre" using no i(1) by blast
    moreover have "\<not> length pre < i" using here i(2) by blast
    ultimately have "i = length pre" by simp
    then have "drop i ?s = a @ '':'' @ b @ post" by (simp add: msg)
    then have "?a = a" "?b = b" using a(1) b(1) by simp_all
    with vp show ?thesis by simp
  qed
  from dev vp shape sub left show ?thesis by blast
qed

theorem vendor_product_overrides_witness:
  "re_search bus_pattern ''usb 1-1.2: New USB device found, ID 1d6b:0002'' = Some [''1-1.2'']
   \<and> entry_device_id (extract_device_info
        (new_LogEntry 0 ''usb 1-1.2: New USB device found, ID 1d6b:0002'' None [])) = None
   \<and> vendor_product (extract_device_info
        (new_LogEntry 0 ''usb 1-1.2: New USB device found, ID 1d6b:0002'' None []))
       = Some ''1d6b:0002''"
proof -
  let ?self = "new_LogEntry 0 ''usb 1-1.2: New USB device found, ID 1d6b:0002'' None []"
  have bus: "re_search bus_pattern ''usb 1-1.2: New USB device found, ID 1d6b:0002''
             = Some [''1-1.2'']"
    by code_simp
  have msg: "message ?self = ''usb 1-1.2: New USB device found, ID '' @ ''1d6b'' @ '':'' @ ''0002'' @ []"
    by simp
  have a: "length ''1d6b'' = 4" "list_all is_word ''1d6b''" by code_simp+
  have b: "length ''0002'' = 4" "list_all is_word ''0002''" by code_simp+
  have least: "\<forall>j<length ''usb 1-1.2: New USB device found, ID ''.
                 \<not> vp_at (drop j (message ?self))"
    unfolding new_LogEntry_fields by code_simp
  from vendor_product_overrides [OF msg a b] least bus show ?thesis
    by simp
qed

text \<open>
  Claim C9. Construction and extraction have no failing operation, so they are total
  functions of the text. For every text the category is one of the nine categories and
  the message is the text; a text that matches no category rule and neither pattern
  gives category \<open>info\<close> and no identifier.
\<close>

theorem classifier_total:
  "category (extract_device_info (new_LogEntry oid text ts raw)) \<in> set categories
   \<and> message (extract_device_info (new_LogEntry oid text ts raw)) = text
   \<and> (\<not> matches_category_rule text \<and> re_search bus_pattern text = None
        \<and> re_search vp_pattern text = None
      \<longrightarrow> category (extract_device_info (new_LogEntry oid text ts raw)) = ''info''
          \<and> entry_device_id (extract_device_info (new_LogEntry oid text ts raw)) = None
          \<and> vendor_product (extract_device_info (new_LogEntry oid text ts raw)) = None)"
proof (intro conjI impI)
  show "category (extract_device_info (new_LogEntry oid text ts raw)) \<in> set categories"
    by (simp add: new_LogEntry_def category_categorize categories_def Let_def)
  show "message (extract_device_info (new_LogEntry oid text ts raw)) = text"
    by simp
next
  assume h: "\<not> matches_category_rule text \<and> re_search bus_pattern text = None
        \<and> re_search vp_pattern text = None"
  then show "category (extract_device_info (new_LogEntry oid text ts raw)) = ''info''"
    by (simp add: new_LogEntry_def category_categorize matches_category_rule_def Let_def)
  from h show "entry_device_id (extract_device_info (new_LogEntry oid text ts raw)) = None"
    by (simp add: extract_device_info_def)
  from h show "vendor_product (extract_device_info (new_LogEntry oid text ts raw)) = None"
    by (simp add: extract_device_info_def)
qed

theorem classifier_total_witness:
  "\<not> matches_category_rule ''hello world'' \<and> re_search bus_pattern ''hello world'' = None
   \<and> re_search vp_pattern ''hello world'' = None
   \<and> category (extract_device_info (new_LogEntry 0 ''hello world'' None ''hello world'')) = ''info''
   \<and> entry_device_id (extract_device_info (new_LogEntry 0 ''hello world'' None ''hello world''))
       = None
   \<and> vendor_product (extract_device_info (new_LogEntry 0 ''hello world'' None ''hello world''))
       = None"
proof -
  have h1: "\<not> matches_category_rule ''hello world''" by code_simp
  have h2: "re_search bus_pattern ''hello world'' = None" by code_simp
  have h3: "re_search vp_pattern ''hello world'' = None" by code_simp
  from classifier_total [of 0 "''hello world''" None "''hello world''"] h1 h2 h3
  show ?thesis by simp
qed

section \<open>The analyzer\<close>

lemma check_resets_eq:
  "check_resets a = a\<lparr>issues := issues a @
     (if reset_count a + disconnect_count a \<ge> 5
        then [frequent_resets_msg (reset_count a + disconnect_count a)]
      else if reset_count a + disconnect_count a \<ge> 3
        then [multiple_resets_msg (reset_count a + disconnect_count a)]
      else [])\<rparr>"
  by (simp add: check_resets_def append_issue_def Let_def)

lemma check_over_current_eq:
  "check_over_current a = a\<lparr>issues := issues a @
     (if over_current_count a > 0 then [over_current_msg (over_current_count a)] else [])\<rparr>"
  by (simp add: check_over_current_def append_issue_def)

lemma check_descriptor_eq:
  "check_descriptor a = a\<lparr>issues := issues a @
     (if descriptor_error_count a > 0 then [descriptor_msg (descriptor_error_count a)] else [])\<rparr>"
  by (simp add: check_descriptor_def append_issue_def)

lemma check_enumeration_eq:
  "check_enumeration a = a\<lparr>issues := issues a @
     (if enumeration_error_count a > 0 then [enumeration_msg (enumeration_error_count a)] else [])\<rparr>"
  by (simp add: check_enumeration_def append_issue_def)

lemma check_timeout_eq:
  "check_timeout a = a\<lparr>issues := issues a @
     (if timeout_count a > 0 then [timeout_msg (timeout_count a)] else [])\<rparr>"
  by (simp add: check_timeout_def append_issue_def)

lemma check_driver_eq:
  "check_driver a = a\<lparr>issues := issues a @ driver_issues (device a)\<rparr>"
  by (cases "device_class (device a)")
     (simp_all add: check_driver_def append_issue_def driver_issues_def)

lemma check_errors_eq:
  "check_errors a = a\<lparr>issues := issues a @
     (if error_count a \<ge> 3 then [errors_msg (error_count a)] else [])\<rparr>"
  by (simp add: check_errors_def append_issue_def)

lemmas check_eqs = check_resets_eq check_over_current_eq check_descriptor_eq
  check_enumeration_eq check_timeout_eq check_driver_eq check_errors_eq

lemma issues_analyze:
  "issues (analyze a) = issues a @
     (if reset_count a + disconnect_count a \<ge> 5
        then [frequent_resets_msg (reset_count a + disconnect_count a)]
      else if reset_count a + disconnect_count a \<ge> 3
        then [multiple_resets_msg (reset_count a + disconnect_count a)]
      else [])
     @ (if over_current_count a > 0 then [over_current_msg (over_current_count a)] else [])
     @ (if descriptor_error_count a > 0 then [descriptor_msg (descriptor_error_count a)] else [])
     @ (if enumeration_error_count a > 0 then [enumeration_msg (enumeration_error_count a)] else [])
     @ (if timeout_count a > 0 then [timeout_msg (timeout_count a)] else [])
     @ driver_issues (device a)
     @ (if error_count a \<ge> 3 then [errors_msg (error_count a)] else [])"
  unfolding analyze_def check_eqs by simp

lemma analyze_fields:
  "device (analyze a) = device a" "log_entries (analyze a) = log_entries a"
  "reset_count (analyze a) = reset_count a" "disconnect_count (analyze a) = disconnect_count a"
  "error_count (analyze a) = error_count a" "warning_count (analyze a) = warning_count a"
  "over_current_count (analyze a) = over_current_count a"
  "timeout_count (analyze a) = timeout_count a"
  "descriptor_error_count (analyze a) = descriptor_error_count a"
  "enumeration_error_count (analyze a) = enumeration_error_count a"
  unfolding analyze_def check_eqs by simp_all

lemma not_reset_issue [simp]:
  "\<not> is_reset_issue (over_current_msg n)" "\<not> is_reset_issue (descriptor_msg n)"
  "\<not> is_reset_issue (enumeration_msg n)" "\<not> is_reset_issue (timeout_msg n)"
  "\<not> is_reset_issue unknown_class_msg" "\<not> is_reset_issue (no_driver_msg cls)"
  "\<not> is_reset_issue (errors_msg n)"
  by (simp_all add: is_reset_issue_def over_current_msg_def descriptor_msg_def
      enumeration_msg_def timeout_msg_def unknown_class_msg_def no_driver_msg_def errors_msg_def)

lemma is_reset_issue_tiers [simp]:
  "is_reset_issue (frequent_resets_msg n)" "is_reset_issue (multiple_resets_msg n)"
  by (simp_all add: is_reset_issue_def frequent_resets_msg_def multiple_resets_msg_def)

lemma filter_driver_issues [simp]: "filter is_reset_issue (driver_issues dev) = []"
  by (simp add: driver_issues_def split: option.splits)

text \<open>
  Claim C8. Among the issues one call of \<open>analyze\<close> appends, the resets/reconnects
  messages are: exactly the "frequent" message when the total is at least 5, exactly
  the "multiple" message when it is 3 or 4, none below 3; the two messages differ.
\<close>

theorem reset_tier_exclusive:
  "filter is_reset_issue (emitted a) =
     (if reset_count a + disconnect_count a \<ge> 5
        then [frequent_resets_msg (reset_count a + disconnect_count a)]
      else if reset_count a + disconnect_count a \<ge> 3
        then [multiple_resets_msg (reset_count a + disconnect_count a)]
      else [])
   \<and> frequent_resets_msg (reset_count a + disconnect_count a)
       \<noteq> multiple_resets_msg (reset_count a + disconnect_count a)"
proof
  show "filter is_reset_issue (emitted a) =
     (if reset_count a + disconnect_count a \<ge> 5
        then [frequent_resets_msg (reset_count a + disconnect_count a)]
      else if reset_count a + disconnect_count a \<ge> 3
        then [multiple_resets_msg (reset_count a + disconnect_count a)]
      else [])"
    by (simp add: emitted_def issues_analyze)
  show "frequent_resets_msg (reset_count a + disconnect_count a)
       \<noteq> multiple_resets_msg (reset_count a + disconnect_count a)"
    by (simp add: frequent_resets_msg_def multiple_resets_msg_def)
qed

theorem reset_tier_exclusive_witness:
  "filter is_reset_issue (emitted analysis_2_2)
     = [''Multiple resets/reconnects (4 occurrences) - check cable and port connection'']
   \<and> filter is_reset_issue (emitted analysis_5_0)
     = [''Frequent resets/reconnects (5 occurrences) - possible cable, port, or power problem'']"
proof -
  have m: "multiple_resets_msg 4
      = ''Multiple resets/reconnects (4 occurrences) - check cable and port connection''"
    by code_simp
  have f: "frequent_resets_msg 5
      = ''Frequent resets/reconnects (5 occurrences) - possible cable, port, or power problem''"
    by code_simp
  from reset_tier_exclusive [of analysis_2_2] reset_tier_exclusive [of analysis_5_0] m f
  show ?thesis
    by (simp add: analysis_2_2_def analysis_5_0_def)
qed

text \<open>
  Claim C10, as amended. \<open>analyze\<close> appends to the issues list and never clears it: a
  second call appends the issues of the first call once more. The issues list is the
  same after the second call exactly when the call emits no issue.
\<close>

theorem analyze_twice:
  "issues (analyze (analyze a)) = issues (analyze a) @ emitted a
   \<and> (issues (analyze (analyze a)) = issues (analyze a) \<longleftrightarrow> emitted a = [])"
  by (simp add: emitted_def issues_analyze [of "analyze a"] analyze_fields)
     (simp add: issues_analyze)

theorem analyze_twice_witness:
  "emitted (new_DeviceAnalysis (new_USBDevice 0 ''1-1'')) = []
   \<and> issues (analyze (analyze (new_DeviceAnalysis (new_USBDevice 0 ''1-1''))))
       = issues (analyze (new_DeviceAnalysis (new_USBDevice 0 ''1-1'')))"
proof -
  have h: "emitted (new_DeviceAnalysis (new_USBDevice 0 ''1-1'')) = []"
    by code_simp
  from analyze_twice [of "new_DeviceAnalysis (new_USBDevice 0 ''1-1'')"] h
  show ?thesis by simp
qed

text \<open>
  Claim C10 as stated fails: after one over-current entry the first call yields one
  issue and the second call yields it twice.
\<close>

theorem analyze_idempotent_counterexample:
  "issues (analyze (analyze analysis_over_current)) \<noteq> issues (analyze analysis_over_current)"
  by code_simp

section \<open>The correlator\<close>

lemma vp_key_nonempty: "get_id_vendor_product d = Some k \<Longrightarrow> k \<noteq> []"
  by (auto simp: get_id_vendor_product_def split: if_splits option.splits)

lemma build_lookup_by_id:
  "fst (build_lookup ds by_id by_vp) i =
     (if i \<noteq> [] \<and> id_candidates ds i \<noteq> [] then Some (last (id_candidates ds i)) else by_id i)"
proof (induction ds arbitrary: by_id by_vp)
  case Nil
  then show ?case by (simp add: id_candidates_def)
next
  case (Cons d ds)
  show ?case
    by (simp add: Cons.IH Let_def) (auto simp: id_candidates_def)
qed

lemma build_lookup_by_vp:
  "snd (build_lookup ds by_id by_vp) k =
     (if vp_candidates ds k = [] then by_vp k
      else Some ((case by_vp k of None \<Rightarrow> [] | Some l \<Rightarrow> l) @ vp_candidates ds k))"
proof (induction ds arbitrary: by_id by_vp)
  case Nil
  then show ?case by (simp add: vp_candidates_def)
next
  case (Cons d ds)
  show ?case
  proof (cases "get_id_vendor_product d")
    case None
    then show ?thesis by (simp add: Cons.IH Let_def) (simp add: vp_candidates_def)
  next
    case (Some k')
    then have "truthy (Some k')" using vp_key_nonempty by simp
    with Some show ?thesis
      by (simp add: Cons.IH Let_def) (auto simp: vp_candidates_def split: option.splits)
  qed
qed

lemma match_entry_attach:
  "match_entry (fst (build_lookup devices Map.empty Map.empty))
               (snd (build_lookup devices Map.empty Map.empty)) dl entry
   = attach dl entry (correlate_targets devices entry)"
proof -
  have vp_empty: "vp_candidates devices [] = []"
    using vp_key_nonempty by (auto simp: vp_candidates_def filter_empty_conv)
  show ?thesis
    by (cases "entry_device_id entry"; cases "vendor_product entry")
       (auto simp: match_entry_def correlate_targets_def vp_targets_def attach_def
          build_lookup_by_id build_lookup_by_vp vp_empty split: option.splits)
qed

lemma match_logs_to_devices_attach:
  "match_logs_to_devices devices entries
   = foldl (\<lambda>dl entry. attach dl entry (correlate_targets devices entry)) [] entries"
proof -
  obtain by_id by_vp where b: "build_lookup devices Map.empty Map.empty = (by_id, by_vp)"
    by (cases "build_lookup devices Map.empty Map.empty")
  have "match_entry by_id by_vp = (\<lambda>dl entry. attach dl entry (correlate_targets devices entry))"
    using match_entry_attach [of devices] b by (intro ext) simp
  then show ?thesis
    by (simp add: match_logs_to_devices_def b)
qed

lemma dl_get_append:
  "dl_get (dl_append dl t e) d = dl_get dl d @ (if dev_oid t = dev_oid d then [e] else [])"
  by (induction dl) auto

lemma dl_get_attach:
  "dl_get (attach dl e ts) d = dl_get dl d @ map (\<lambda>t. e) (filter (\<lambda>t. dev_oid t = dev_oid d) ts)"
  unfolding attach_def
  by (induction ts arbitrary: dl) (simp_all add: dl_get_append)

lemma dl_get_foldl_attach:
  "dl_get (foldl (\<lambda>dl entry. attach dl entry (f entry)) dl es) d
   = dl_get dl d @ concat (map (\<lambda>e. map (\<lambda>t. e) (filter (\<lambda>t. dev_oid t = dev_oid d) (f e))) es)"
  by (induction es arbitrary: dl) (simp_all add: dl_get_attach)

lemma mset_values_append:
  "mset (concat (map snd (dl_append dl t e))) = mset (concat (map snd dl)) + {#e#}"
  by (induction dl) auto

lemma mset_values_attach:
  "mset (concat (map snd (attach dl e ts)))
   = mset (concat (map snd dl)) + mset (map (\<lambda>t. e) ts)"
  unfolding attach_def
  by (induction ts arbitrary: dl) (simp_all add: mset_values_append)

lemma mset_values_foldl_attach:
  "mset (concat (map snd (foldl (\<lambda>dl entry. attach dl entry (f entry)) dl es)))
   = mset (concat (map snd dl)) + mset (concat (map (\<lambda>e. map (\<lambda>t. e) (f e)) es))"
  by (induction es arbitrary: dl) (simp_all add: mset_values_attach)

lemma keys_append: "fst ` set (dl_append dl t e) \<subseteq> insert t (fst ` set dl)"
proof (induction dl)
  case Nil
  then show ?case by simp
next
  case (Cons kv dl)
  obtain k v where kv: "kv = (k, v)" by (cases kv)
  show ?case
  proof (cases "dev_oid k = dev_oid t")
    case True
    then show ?thesis by (auto simp: kv)
  next
    case False
    then show ?thesis using Cons.IH by (auto simp: kv)
  qed
qed

lemma keys_attach: "fst ` set (attach dl e ts) \<subseteq> set ts \<union> fst ` set dl"
  unfolding attach_def
proof (induction ts arbitrary: dl)
  case Nil
  then show ?case by simp
next
  case (Cons t ts)
  show ?case using Cons.IH [of "dl_append dl t e"] keys_append [of dl t e] by auto
qed

lemma keys_foldl_attach:
  "fst ` set (foldl (\<lambda>dl entry. attach dl entry (f entry)) dl es)
   \<subseteq> (\<Union>e\<in>set es. set (f e)) \<union> fst ` set dl"
proof (induction es arbitrary: dl)
  case Nil
  then show ?case by simp
next
  case (Cons x xs)
  show ?case using Cons.IH [of "attach dl x (f x)"] keys_attach [of dl x "f x"] by auto
qed

lemma correlate_targets_listed: "set (correlate_targets devices e) \<subseteq> set devices"
proof -
  have "id_candidates devices i \<noteq> [] \<Longrightarrow> last (id_candidates devices i) \<in> set devices" for i
    using last_in_set [of "id_candidates devices i"] by (auto simp: id_candidates_def)
  then show ?thesis
    by (auto simp: correlate_targets_def vp_targets_def vp_candidates_def split: option.splits)
qed

lemma keys_listed: "fst ` set (match_logs_to_devices devices entries) \<subseteq> set devices"
  using keys_foldl_attach [of "correlate_targets devices" "[]" entries]
    correlate_targets_listed [of devices]
  by (auto simp: match_logs_to_devices_attach)


lemma no_ghost_keys:
  "filter (\<lambda>(dev, es). \<not> list_ex (\<lambda>d. dev_oid d = dev_oid dev) devices)
          (match_logs_to_devices devices entries) = []"
proof -
  have "list_ex (\<lambda>d. dev_oid d = dev_oid k) devices"
    if "(k, v) \<in> set (match_logs_to_devices devices entries)" for k v
  proof -
    from that have "k \<in> fst ` set (match_logs_to_devices devices entries)" by force
    then have "k \<in> set devices" using keys_listed by blast
    then show ?thesis by (auto simp: list_ex_iff)
  qed
  then show ?thesis by (auto simp: filter_empty_conv)
qed

lemma set_copies: "set (map (\<lambda>t. e) ts) = (if ts = [] then {} else {e})"
  by (cases ts) auto

lemma set_fanout: "set (concat (map (\<lambda>e. map (\<lambda>t. e) (f e)) es)) = {e \<in> set es. f e \<noteq> []}"
  by (induction es) (auto simp: set_copies simp del: set_map)

lemma matched_values:
  "mset (concat (map snd (match_logs_to_devices devices entries)))
   = mset (concat (map (\<lambda>e. map (\<lambda>t. e) (correlate_targets devices e)) entries))"
  using mset_values_foldl_attach [of "correlate_targets devices" "[]" entries]
  by (simp add: match_logs_to_devices_attach)

lemma matched_set:
  "set (concat (map snd (match_logs_to_devices devices entries)))
   = {e \<in> set entries. correlate_targets devices e \<noteq> []}"
  using mset_eq_setD [OF matched_values [of devices entries]]
  by (simp only: set_fanout)

lemma mset_partition:
  "mset (filter (\<lambda>e. f e = []) es) + mset (concat (map (\<lambda>e. map (\<lambda>t. e) (f e)) es))
   = mset (concat (map (\<lambda>e. if f e = [] then [e] else map (\<lambda>t. e) (f e)) es))"
  by (induction es) auto

text \<open>
  Claim C6. \<open>match_logs_to_devices\<close> implements the correlation rules: the list it
  keeps for a device holds, in entry order, one copy of an entry for each of the
  entry's targets that is this device, where the targets are the single device with
  the entry's \<open>device_id\<close> if there is one, else every device with the entry's
  vendor:product key, else none. In particular two distinct listed devices with one
  vendor:product key both receive an entry that bears only that key.
\<close>

theorem correlation_priority_and_fanout:
  "dl_get (match_logs_to_devices devices entries) d
     = concat (map (\<lambda>e. map (\<lambda>t. e)
                 (filter (\<lambda>t. dev_oid t = dev_oid d) (correlate_targets devices e))) entries)
   \<and> (d1 \<in> set devices \<and> d2 \<in> set devices \<and> dev_oid d1 \<noteq> dev_oid d2
        \<and> get_id_vendor_product d1 = Some k \<and> get_id_vendor_product d2 = Some k
        \<and> e \<in> set entries \<and> entry_device_id e = None \<and> vendor_product e = Some k
      \<longrightarrow> e \<in> set (dl_get (match_logs_to_devices devices entries) d1)
          \<and> e \<in> set (dl_get (match_logs_to_devices devices entries) d2))"
proof -
  have eq: "dl_get (match_logs_to_devices devices entries) x
     = concat (map (\<lambda>e. map (\<lambda>t. e)
                 (filter (\<lambda>t. dev_oid t = dev_oid x) (correlate_targets devices e))) entries)"
    for x
    using dl_get_foldl_attach [of "correlate_targets devices" "[]" entries x]
    by (simp add: match_logs_to_devices_attach)
  have fan: "e \<in> set (dl_get (match_logs_to_devices devices entries) x)"
    if "x \<in> set devices" "get_id_vendor_product x = Some k" "e \<in> set entries"
      "entry_device_id e = None" "vendor_product e = Some k" for x
  proof -
    from that have "x \<in> set (correlate_targets devices e)"
      by (simp add: correlate_targets_def vp_targets_def vp_candidates_def)
    then have "filter (\<lambda>t. dev_oid t = dev_oid x) (correlate_targets devices e) \<noteq> []"
      by (auto simp: filter_empty_conv)
    with that(3) have "e \<in> {e \<in> set entries.
        filter (\<lambda>t. dev_oid t = dev_oid x) (correlate_targets devices e) \<noteq> []}"
      by simp
    then show ?thesis
      unfolding eq set_fanout .
  qed
  from eq fan show ?thesis by blast
qed

theorem correlation_priority_and_fanout_witness:
  "twin_a \<in> set [twin_a, twin_b] \<and> twin_b \<in> set [twin_a, twin_b]
   \<and> dev_oid twin_a \<noteq> dev_oid twin_b
   \<and> get_id_vendor_product twin_a = Some ''1234:5678''
   \<and> get_id_vendor_product twin_b = Some ''1234:5678''
   \<and> vp_only_entry \<in> set [vp_only_entry, id_entry]
   \<and> entry_device_id vp_only_entry = None \<and> vendor_product vp_only_entry = Some ''1234:5678''
   \<and> vp_only_entry \<in> set (dl_get (match_logs_to_devices [twin_a, twin_b] [vp_only_entry, id_entry]) twin_a)
   \<and> vp_only_entry \<in> set (dl_get (match_logs_to_devices [twin_a, twin_b] [vp_only_entry, id_entry]) twin_b)
   \<and> dl_get (match_logs_to_devices [twin_a, twin_b] [vp_only_entry, id_entry]) twin_a
       = [vp_only_entry, id_entry]
   \<and> dl_get (match_logs_to_devices [twin_a, twin_b] [vp_only_entry, id_entry]) twin_b
       = [vp_only_entry]"
proof -
  have h: "twin_a \<in> set [twin_a, twin_b]" "twin_b \<in> set [twin_a, twin_b]"
    "vp_only_entry \<in> set [vp_only_entry, id_entry]"
    by simp_all
  have o: "dev_oid twin_a \<noteq> dev_oid twin_b" by code_simp
  have k: "get_id_vendor_product twin_a = Some ''1234:5678''"
    "get_id_vendor_product twin_b = Some ''1234:5678''"
    by code_simp+
  have e: "entry_device_id vp_only_entry = None" "vendor_product vp_only_entry = Some ''1234:5678''"
    by code_simp+
  have ta: "concat (map (\<lambda>e. map (\<lambda>t. e) (filter (\<lambda>t. dev_oid t = dev_oid twin_a)
              (correlate_targets [twin_a, twin_b] e))) [vp_only_entry, id_entry])
            = [vp_only_entry, id_entry]"
    by code_simp
  have tb: "concat (map (\<lambda>e. map (\<lambda>t. e) (filter (\<lambda>t. dev_oid t = dev_oid twin_b)
              (correlate_targets [twin_a, twin_b] e))) [vp_only_entry, id_entry])
            = [vp_only_entry]"
    by code_simp
  from correlation_priority_and_fanout
         [of "[twin_a, twin_b]" "[vp_only_entry, id_entry]" twin_a twin_a twin_b
             "''1234:5678''" vp_only_entry]
       correlation_priority_and_fanout
         [of "[twin_a, twin_b]" "[vp_only_entry, id_entry]" twin_b twin_a twin_b
             "''1234:5678''" vp_only_entry]
       h o k e ta tb
  show ?thesis by simp
qed

text \<open>
  Claim C7. The entries of the list are objects: entries with one identity are one
  entry. Then the unmatched entries are the entries without a target, in their
  original order; an entry is unmatched exactly when it is in the list of no device;
  and the unmatched entries together with the lists of all devices are, as multisets,
  the entries with one copy of an entry without target and one copy per target
  otherwise.
\<close>

theorem unmatched_partition:
  assumes "inj_on entry_oid (set entries)"
  shows "get_unmatched_logs devices entries
           = filter (\<lambda>e. correlate_targets devices e = []) entries
       \<and> (\<forall>e. e \<in> set (get_unmatched_logs devices entries) \<longleftrightarrow>
               e \<in> set entries
               \<and> e \<notin> set (concat (map snd (match_logs_to_devices devices entries))))
       \<and> mset (get_unmatched_logs devices entries)
           + mset (concat (map snd (match_logs_to_devices devices entries)))
         = mset (concat (map (\<lambda>e. if correlate_targets devices e = [] then [e]
                                  else map (\<lambda>t. e) (correlate_targets devices e)) entries))"
proof -
  let ?matched = "concat (map snd (match_logs_to_devices devices entries))"
  have by_oid: "(\<not> list_ex (\<lambda>m. entry_oid m = entry_oid e) ?matched)
                = (correlate_targets devices e = [])" if "e \<in> set entries" for e
  proof -
    have "(\<exists>m\<in>set ?matched. entry_oid m = entry_oid e) = (e \<in> set ?matched)"
    proof
      assume "\<exists>m\<in>set ?matched. entry_oid m = entry_oid e"
      then obtain m where m: "m \<in> set ?matched" "entry_oid m = entry_oid e" by blast
      from m(1) have "m \<in> set entries" unfolding matched_set by simp
      with m(2) that assms have "m = e" by (auto dest: inj_onD)
      with m(1) show "e \<in> set ?matched" by simp
    qed blast
    then have "(\<not> list_ex (\<lambda>m. entry_oid m = entry_oid e) ?matched) = (e \<notin> set ?matched)"
      by (simp only: list_ex_iff)
    also have "\<dots> = (correlate_targets devices e = [])"
      unfolding matched_set using that by simp
    finally show ?thesis .
  qed
  have unm: "get_unmatched_logs devices entries
           = filter (\<lambda>e. correlate_targets devices e = []) entries"
    unfolding get_unmatched_logs_def Let_def
    by (rule filter_cong) (simp_all add: by_oid)
  have iff: "\<forall>e. e \<in> set (get_unmatched_logs devices entries) \<longleftrightarrow>
               e \<in> set entries \<and> e \<notin> set ?matched"
    unfolding unm matched_set by auto
  have part: "mset (get_unmatched_logs devices entries) + mset ?matched
         = mset (concat (map (\<lambda>e. if correlate_targets devices e = [] then [e]
                                  else map (\<lambda>t. e) (correlate_targets devices e)) entries))"
    unfolding unm matched_values by (rule mset_partition)
  from unm iff part show ?thesis by blast
qed

theorem unmatched_partition_witness:
  "inj_on entry_oid (set [vp_only_entry, stray_entry, id_entry])
   \<and> get_unmatched_logs [twin_a, twin_b] [vp_only_entry, stray_entry, id_entry] = [stray_entry]
   \<and> mset [stray_entry]
       + mset (concat (map snd (match_logs_to_devices [twin_a, twin_b]
                                  [vp_only_entry, stray_entry, id_entry])))
     = mset [vp_only_entry, vp_only_entry, stray_entry, id_entry]"
proof -
  have o: "entry_oid vp_only_entry = 0" "entry_oid stray_entry = 2" "entry_oid id_entry = 1"
    by (simp_all add: vp_only_entry_def stray_entry_def id_entry_def)
  have h: "inj_on entry_oid (set [vp_only_entry, stray_entry, id_entry])"
    by (auto simp: inj_on_def o)
  have f: "filter (\<lambda>e. correlate_targets [twin_a, twin_b] e = [])
             [vp_only_entry, stray_entry, id_entry] = [stray_entry]"
    by code_simp
  have c: "concat (map (\<lambda>e. if correlate_targets [twin_a, twin_b] e = [] then [e]
                              else map (\<lambda>t. e) (correlate_targets [twin_a, twin_b] e))
             [vp_only_entry, stray_entry, id_entry])
           = [vp_only_entry, vp_only_entry, stray_entry, id_entry]"
    by code_simp
  note t = unmatched_partition [OF h, of "[twin_a, twin_b]", unfolded f c]
  from t have u: "get_unmatched_logs [twin_a, twin_b] [vp_only_entry, stray_entry, id_entry]
                  = [stray_entry]"
    by (rule conjunct1)
  from t have m: "mset (get_unmatched_logs [twin_a, twin_b] [vp_only_entry, stray_entry, id_entry])
       + mset (concat (map snd (match_logs_to_devices [twin_a, twin_b]
                                  [vp_only_entry, stray_entry, id_entry])))
     = mset [vp_only_entry, vp_only_entry, stray_entry, id_entry]"
    by (rule conjunct2 [THEN conjunct2])
  show ?thesis
    by (intro conjI) (rule h, rule u, rule m [unfolded u])
qed

section \<open>The orchestration\<close>

lemma add_log_entry_device [simp]: "device (add_log_entry a e) = device a"
  by (simp add: add_log_entry_def Let_def)

lemma foldl_add_log_entry_device [simp]: "device (foldl add_log_entry a es) = device a"
  by (induction es arbitrary: a) simp_all

lemma run_analysis_device [simp]: "device (run_analysis dev es) = dev"
  by (simp add: run_analysis_def analyze_fields new_DeviceAnalysis_def)

text \<open>
  Every key of \<open>device_logs\<close> is a listed device, so the second loop of
  \<open>analyze_devices\<close> adds nothing: the result has one analysis for each listed device.
\<close>

lemma analyze_devices_listed_only:
  "analyze_devices devices entries
     = map (\<lambda>dev. run_analysis dev (dl_get (match_logs_to_devices devices entries) dev)) devices"
  by (simp add: analyze_devices_def Let_def no_ghost_keys)

lemma analyze_devices_devices: "map device (analyze_devices devices entries) = devices"
  by (simp add: analyze_devices_listed_only comp_def)

lemma add_log_entry_log_entries [simp]:
  "log_entries (add_log_entry a e) = log_entries a @ [e]"
  by (simp add: add_log_entry_def Let_def)

lemma foldl_add_log_entry_log_entries [simp]:
  "log_entries (foldl add_log_entry a es) = log_entries a @ es"
  by (induction es arbitrary: a) simp_all

lemma run_analysis_log_entries [simp]: "log_entries (run_analysis dev es) = es"
  by (simp add: run_analysis_def analyze_fields new_DeviceAnalysis_def)





lemma scenario_device_fields [simp]:
  "dev_oid scenario_device = 0" "device_id scenario_device = ''1-1.2''"
  "vendor_id scenario_device = Some ''1234''" "product_id scenario_device = Some ''5678''"
  "driver scenario_device = None" "device_class scenario_device = Some ''ff''"
  by (simp_all add: scenario_device_def new_USBDevice_def)

lemma listed_device_fields [simp]:
  "dev_oid listed_device = 0" "device_id listed_device = ''1-1''"
  "vendor_id listed_device = Some ''1d6b''" "product_id listed_device = Some ''0002''"
  "driver listed_device = Some ''hub''" "device_class listed_device = None"
  by (simp_all add: listed_device_def new_USBDevice_def)

lemma str_of_small: "str_of_int 1 = ''1''" "str_of_int 3 = ''3''"
  by code_simp+

lemma analyze_eq:
  "analyze a = a\<lparr>issues := issues a @
     (if reset_count a + disconnect_count a \<ge> 5
        then [frequent_resets_msg (reset_count a + disconnect_count a)]
      else if reset_count a + disconnect_count a \<ge> 3
        then [multiple_resets_msg (reset_count a + disconnect_count a)]
      else [])
     @ (if over_current_count a > 0 then [over_current_msg (over_current_count a)] else [])
     @ (if descriptor_error_count a > 0 then [descriptor_msg (descriptor_error_count a)] else [])
     @ (if enumeration_error_count a > 0 then [enumeration_msg (enumeration_error_count a)] else [])
     @ (if timeout_count a > 0 then [timeout_msg (timeout_count a)] else [])
     @ driver_issues (device a)
     @ (if error_count a \<ge> 3 then [errors_msg (error_count a)] else [])\<rparr>"
  unfolding analyze_def check_eqs by simp

text \<open>The scenario lines: no entry is attached to the device.\<close>

lemma scenario_match:
  "match_logs_to_devices [scenario_device]
     [stripped_reset_entry 0, stripped_reset_entry 1, stripped_reset_entry 2,
      stripped_over_current_entry 3] = []"
  by (simp add: match_logs_to_devices_def match_entry_def get_id_vendor_product_def)

lemma scenario_analysis:
  "analyze_devices [scenario_device]
     [stripped_reset_entry 0, stripped_reset_entry 1, stripped_reset_entry 2,
      stripped_over_current_entry 3]
   = [(new_DeviceAnalysis scenario_device)
        \<lparr>issues := [''Unknown device class - driver may not be available'']\<rparr>]"
  unfolding analyze_devices_listed_only scenario_match
  by (simp add: run_analysis_def analyze_eq)
     (simp add: new_DeviceAnalysis_def driver_issues_def unknown_class_msg_def)

lemma scenario_unmatched:
  "get_unmatched_logs [scenario_device]
     [stripped_reset_entry 0, stripped_reset_entry 1, stripped_reset_entry 2,
      stripped_over_current_entry 3]
   = [stripped_reset_entry 0, stripped_reset_entry 1, stripped_reset_entry 2,
      stripped_over_current_entry 3]"
  unfolding get_unmatched_logs_def Let_def scenario_match
  by simp

text \<open>The bracketed lines: all four entries are attached to the device.\<close>

lemma bracketed_match:
  "match_logs_to_devices [scenario_device]
     [bracketed_reset_entry 0, bracketed_reset_entry 1, bracketed_reset_entry 2,
      bracketed_over_current_entry 3]
   = [(scenario_device, [bracketed_reset_entry 0, bracketed_reset_entry 1,
                         bracketed_reset_entry 2, bracketed_over_current_entry 3])]"
  by (simp add: match_logs_to_devices_def match_entry_def get_id_vendor_product_def)

lemma bracketed_fill:
  "foldl add_log_entry (new_DeviceAnalysis scenario_device)
     [bracketed_reset_entry 0, bracketed_reset_entry 1, bracketed_reset_entry 2,
      bracketed_over_current_entry 3]
   = (new_DeviceAnalysis scenario_device)
       \<lparr>log_entries := [bracketed_reset_entry 0, bracketed_reset_entry 1,
                        bracketed_reset_entry 2, bracketed_over_current_entry 3],
        reset_count := 3, over_current_count := 1\<rparr>"
  by (simp add: add_log_entry_def new_DeviceAnalysis_def Let_def)

lemma bracketed_analysis:
  "analyze_devices [scenario_device]
     [bracketed_reset_entry 0, bracketed_reset_entry 1, bracketed_reset_entry 2,
      bracketed_over_current_entry 3]
   = [(new_DeviceAnalysis scenario_device)
        \<lparr>log_entries := [bracketed_reset_entry 0, bracketed_reset_entry 1,
                         bracketed_reset_entry 2, bracketed_over_current_entry 3],
         issues := [''Multiple resets/reconnects (3 occurrences) - check cable and port connection'',
                    ''Over-current detected (1 times) - device may be drawing too much power or hub has power issue'',
                    ''Unknown device class - driver may not be available''],
         reset_count := 3, over_current_count := 1\<rparr>]"
proof -
  let ?es = "[bracketed_reset_entry 0, bracketed_reset_entry 1, bracketed_reset_entry 2,
              bracketed_over_current_entry 3]"
  have run: "analyze_devices [scenario_device] ?es = [run_analysis scenario_device ?es]"
    unfolding analyze_devices_listed_only bracketed_match by simp
  have "run_analysis scenario_device ?es
        = analyze ((new_DeviceAnalysis scenario_device)
                     \<lparr>log_entries := ?es, reset_count := 3, over_current_count := 1\<rparr>)"
    unfolding run_analysis_def bracketed_fill ..
  also have "\<dots> = (new_DeviceAnalysis scenario_device)
        \<lparr>log_entries := ?es,
         issues := [''Multiple resets/reconnects (3 occurrences) - check cable and port connection'',
                    ''Over-current detected (1 times) - device may be drawing too much power or hub has power issue'',
                    ''Unknown device class - driver may not be available''],
         reset_count := 3, over_current_count := 1\<rparr>"
    by (simp add: analyze_eq new_DeviceAnalysis_def driver_issues_def unknown_class_msg_def
          multiple_resets_msg_def over_current_msg_def str_of_small)
  finally show ?thesis
    unfolding run by simp
qed

text \<open>The lines of the devices that are not listed: no entry is attached.\<close>

lemma ghost_match:
  "match_logs_to_devices [listed_device] [ghost_disconnect_entry 0, ghost_over_current_entry 1]
   = []"
  by (simp add: match_logs_to_devices_def match_entry_def get_id_vendor_product_def)

text \<open>
  A device seen only in the log. One device is listed; the log has a line with the bus
  path of another device and a line with the vendor:product key of another device.
  Both entries carry their identifier, neither is attached to a device, the result
  has the analysis of the listed device only, and both entries are unmatched.
\<close>

lemma unlisted_device_in_log:
  "filter_usb_entries ghost_lines = [ghost_disconnect_entry 0, ghost_over_current_entry 1]
   \<and> map entry_device_id (filter_usb_entries ghost_lines) = [Some ''3-1'', None]
   \<and> map vendor_product (filter_usb_entries ghost_lines) = [None, Some ''046d:c077'']
   \<and> analyze_devices [listed_device] (filter_usb_entries ghost_lines)
       = [new_DeviceAnalysis listed_device]
   \<and> get_unmatched_logs [listed_device] (filter_usb_entries ghost_lines)
       = filter_usb_entries ghost_lines"
proof (intro conjI)
  show "filter_usb_entries ghost_lines = [ghost_disconnect_entry 0, ghost_over_current_entry 1]"
    by (rule ghost_entries)
  show "map entry_device_id (filter_usb_entries ghost_lines) = [Some ''3-1'', None]"
    by (simp add: ghost_entries)
  show "map vendor_product (filter_usb_entries ghost_lines) = [None, Some ''046d:c077'']"
    by (simp add: ghost_entries)
  show "analyze_devices [listed_device] (filter_usb_entries ghost_lines)
       = [new_DeviceAnalysis listed_device]"
    unfolding ghost_entries analyze_devices_listed_only ghost_match
    by (simp add: run_analysis_def analyze_eq)
       (simp add: new_DeviceAnalysis_def driver_issues_def)
  show "get_unmatched_logs [listed_device] (filter_usb_entries ghost_lines)
       = filter_usb_entries ghost_lines"
    unfolding ghost_entries get_unmatched_logs_def Let_def ghost_match
    by simp
qed

text \<open>
  Claim C1, as amended. In the scenario the prefix strip leaves the messages "reset"
  (three times) and "over-current detected": the categories are \<open>info\<close>, \<open>info\<close>,
  \<open>info\<close>, \<open>over_current\<close>, no entry has an identifier, none is correlated with the
  device. The pipeline yields one analysis, for the device, with no entries, all
  counts 0 and the single issue "Unknown device class - driver may not be available";
  the four entries are unmatched. With a bracketed time stamp in front of every line
  the analysis has the four entries, \<open>reset_count = 3\<close>, \<open>over_current_count = 1\<close>
  and the issues multiple resets (3), over-current (1), unknown device class.
\<close>

theorem end_to_end_scenario:
  "filter_usb_entries scenario_logs
     = [stripped_reset_entry 0, stripped_reset_entry 1, stripped_reset_entry 2,
        stripped_over_current_entry 3]
   \<and> map category (filter_usb_entries scenario_logs)
       = [''info'', ''info'', ''info'', ''over_current'']
   \<and> map entry_device_id (filter_usb_entries scenario_logs) = [None, None, None, None]
   \<and> map vendor_product (filter_usb_entries scenario_logs) = [None, None, None, None]
   \<and> analyze_devices [scenario_device] (filter_usb_entries scenario_logs)
       = [(new_DeviceAnalysis scenario_device)
            \<lparr>issues := [''Unknown device class - driver may not be available'']\<rparr>]
   \<and> get_unmatched_logs [scenario_device] (filter_usb_entries scenario_logs)
       = filter_usb_entries scenario_logs
   \<and> filter_usb_entries bracketed_logs
       = [bracketed_reset_entry 0, bracketed_reset_entry 1, bracketed_reset_entry 2,
          bracketed_over_current_entry 3]
   \<and> analyze_devices [scenario_device] (filter_usb_entries bracketed_logs)
       = [(new_DeviceAnalysis scenario_device)
            \<lparr>log_entries := filter_usb_entries bracketed_logs,
             issues := [''Multiple resets/reconnects (3 occurrences) - check cable and port connection'',
                        ''Over-current detected (1 times) - device may be drawing too much power or hub has power issue'',
                        ''Unknown device class - driver may not be available''],
             reset_count := 3, over_current_count := 1\<rparr>]"
proof (intro conjI)
  show "filter_usb_entries scenario_logs
     = [stripped_reset_entry 0, stripped_reset_entry 1, stripped_reset_entry 2,
        stripped_over_current_entry 3]"
    by (rule scenario_entries)
  show "map category (filter_usb_entries scenario_logs)
       = [''info'', ''info'', ''info'', ''over_current'']"
    by (simp add: scenario_entries)
  show "map entry_device_id (filter_usb_entries scenario_logs) = [None, None, None, None]"
    by (simp add: scenario_entries)
  show "map vendor_product (filter_usb_entries scenario_logs) = [None, None, None, None]"
    by (simp add: scenario_entries)
  show "analyze_devices [scenario_device] (filter_usb_entries scenario_logs)
       = [(new_DeviceAnalysis scenario_device)
            \<lparr>issues := [''Unknown device class - driver may not be available'']\<rparr>]"
    unfolding scenario_entries by (rule scenario_analysis)
  show "get_unmatched_logs [scenario_device] (filter_usb_entries scenario_logs)
       = filter_usb_entries scenario_logs"
    unfolding scenario_entries by (rule scenario_unmatched)
  show "filter_usb_entries bracketed_logs
       = [bracketed_reset_entry 0, bracketed_reset_entry 1, bracketed_reset_entry 2,
          bracketed_over_current_entry 3]"
    by (rule bracketed_entries)
  show "analyze_devices [scenario_device] (filter_usb_entries bracketed_logs)
       = [(new_DeviceAnalysis scenario_device)
            \<lparr>log_entries := filter_usb_entries bracketed_logs,
             issues := [''Multiple resets/reconnects (3 occurrences) - check cable and port connection'',
                        ''Over-current detected (1 times) - device may be drawing too much power or hub has power issue'',
                        ''Unknown device class - driver may not be available''],
             reset_count := 3, over_current_count := 1\<rparr>]"
    unfolding bracketed_entries by (rule bracketed_analysis)
qed

text \<open>
  Claim C1 as stated fails: the analysis of the scenario does not have
  \<open>reset_count = 3\<close>, \<open>over_current_count = 1\<close> and the three issues.
\<close>

theorem end_to_end_counterexample:
  "\<not> (length (analyze_devices [scenario_device] (filter_usb_entries scenario_logs)) = 1
      \<and> reset_count (hd (analyze_devices [scenario_device] (filter_usb_entries scenario_logs))) = 3
      \<and> over_current_count
           (hd (analyze_devices [scenario_device] (filter_usb_entries scenario_logs))) = 1
      \<and> issues (hd (analyze_devices [scenario_device] (filter_usb_entries scenario_logs)))
          = [multiple_resets_msg 3, over_current_msg 1, no_driver_msg ''ff''])"
  unfolding scenario_entries scenario_analysis
  by (simp add: new_DeviceAnalysis_def)

end
